theory Spec2Isabelle
  imports Complex_Main "HOL-Library.Log_Nat"
begin

section \<open>Values, errors and floating-point numbers\<close>

text \<open>
  The scripts are Python over numpy and torch. Every exception the modelled code can raise
  is a value of \<open>error\<close>; a computation that may raise returns \<open>error + 'a\<close> with
  \<open>Inl\<close> for the exception.
\<close>

datatype error =
    ValueError
  | IndexError
  | AssertionError
  | TypeError
  | AttributeError string
  | ArgumentError
  | SystemExit

definition and_then :: "error + 'a \<Rightarrow> ('a \<Rightarrow> error + 'b) \<Rightarrow> error + 'b" where
  "and_then m f = (case m of Inl e \<Rightarrow> Inl e | Inr x \<Rightarrow> f x)"

subsection \<open>Binary floating point\<close>

text \<open>
  An element of a numpy array, an element of a torch tensor and a Python float are
  IEEE 754 binary floating-point numbers: a finite number, plus or minus infinity, or
  \<open>nan\<close>. A finite number is kept as the real it denotes, so the two zeros are one value:
  no comparison tells them apart, and the one operation that does, the division of a
  non-zero number by zero, takes the zero as positive (in the code a divisor that is zero
  is a difference \<open>max - min\<close>, which is never the negative zero).

  An operation on finite numbers computes the exact real result and rounds it to the
  format, to the nearest representable number with ties to the even significand.
  A format has \<open>p\<close> significant bits and exponents from \<open>emin\<close> to \<open>emax\<close>:
  double precision is \<open>p = 53\<close>, \<open>emin = -1022\<close>, \<open>emax = 1023\<close>, single precision
  \<open>p = 24\<close>, \<open>emin = -126\<close>, \<open>emax = 127\<close>.

  \<open>largest_exp x lo hi\<close> is the exponent of \<open>x \<ge> 0\<close> clamped to the format: the largest
  \<open>e\<close> in \<open>lo .. hi\<close> with \<open>2 ^ e \<le> x\<close>, or \<open>lo\<close> when there is none (the subnormal range),
  found by bisection. The representable numbers around \<open>x\<close> are then the multiples of
  \<open>2 ^ (e - p + 1)\<close>; \<open>round_mag\<close> rounds \<open>x\<close> to the nearest of them, and a result
  that reaches \<open>2 ^ (emax + 1)\<close> has overflowed to infinity.
\<close>

datatype fp = Fin real | PInf | MInf | NaN

function largest_exp :: "real \<Rightarrow> int \<Rightarrow> int \<Rightarrow> int" where
  "largest_exp x lo hi =
     (if hi \<le> lo then lo
      else if 2 powi ((lo + hi + 1) div 2) \<le> x then largest_exp x ((lo + hi + 1) div 2) hi
      else largest_exp x lo ((lo + hi + 1) div 2 - 1))"
  by pat_completeness auto
termination
  by (relation "measure (\<lambda>(x, lo, hi). nat (hi - lo))") auto

declare largest_exp.simps [simp del]

definition round_half_even :: "real \<Rightarrow> int" where
  "round_half_even y =
     (if y - of_int \<lfloor>y\<rfloor> < 1 / 2 then \<lfloor>y\<rfloor>
      else if 1 / 2 < y - of_int \<lfloor>y\<rfloor> then \<lfloor>y\<rfloor> + 1
      else if even \<lfloor>y\<rfloor> then \<lfloor>y\<rfloor> else \<lfloor>y\<rfloor> + 1)"

definition ulp :: "nat \<Rightarrow> int \<Rightarrow> int \<Rightarrow> real \<Rightarrow> real" where
  "ulp p emin emax x = 2 powi (largest_exp x emin emax - int p + 1)"

definition round_mag :: "nat \<Rightarrow> int \<Rightarrow> int \<Rightarrow> real \<Rightarrow> real" where
  "round_mag p emin emax x =
     of_int (round_half_even (x / ulp p emin emax x)) * ulp p emin emax x"

definition round_to :: "nat \<Rightarrow> int \<Rightarrow> int \<Rightarrow> real \<Rightarrow> fp" where
  "round_to p emin emax x =
     (if 2 powi (emax + 1) \<le> round_mag p emin emax \<bar>x\<bar>
      then (if 0 < x then PInf else MInf)
      else Fin (if 0 \<le> x then round_mag p emin emax \<bar>x\<bar> else - round_mag p emin emax \<bar>x\<bar>))"

definition round64 :: "real \<Rightarrow> fp" where
  "round64 = round_to 53 (- 1022) 1023"

definition round32 :: "real \<Rightarrow> fp" where
  "round32 = round_to 24 (- 126) 127"

text \<open>
  The comparisons \<open><\<close> and \<open>==\<close>: false whenever a \<open>nan\<close> is involved, and otherwise
  the order of the extended reals.
\<close>

fun fp_less :: "fp \<Rightarrow> fp \<Rightarrow> bool" where
  "fp_less (Fin a) (Fin b) = (a < b)"
| "fp_less NaN y = False"
| "fp_less x NaN = False"
| "fp_less MInf MInf = False"
| "fp_less MInf y = True"
| "fp_less x MInf = False"
| "fp_less PInf y = False"
| "fp_less x PInf = True"

fun np_eq :: "fp \<Rightarrow> fp \<Rightarrow> bool" where
  "np_eq NaN y = False"
| "np_eq x NaN = False"
| "np_eq x y = (x = y)"

text \<open>
  The arithmetic operations take the rounding of their format as first argument. Sums
  and differences of infinities of opposite direction, \<open>0 * inf\<close>, \<open>0 / 0\<close> and
  \<open>inf / inf\<close> are \<open>nan\<close>, and \<open>nan\<close> propagates.
\<close>

fun fp_neg :: "fp \<Rightarrow> fp" where
  "fp_neg (Fin a) = Fin (- a)"
| "fp_neg PInf = MInf"
| "fp_neg MInf = PInf"
| "fp_neg NaN = NaN"

fun fp_add :: "(real \<Rightarrow> fp) \<Rightarrow> fp \<Rightarrow> fp \<Rightarrow> fp" where
  "fp_add rnd (Fin a) (Fin b) = rnd (a + b)"
| "fp_add rnd NaN y = NaN"
| "fp_add rnd x NaN = NaN"
| "fp_add rnd PInf MInf = NaN"
| "fp_add rnd MInf PInf = NaN"
| "fp_add rnd PInf y = PInf"
| "fp_add rnd x PInf = PInf"
| "fp_add rnd MInf y = MInf"
| "fp_add rnd x MInf = MInf"

definition fp_sub :: "(real \<Rightarrow> fp) \<Rightarrow> fp \<Rightarrow> fp \<Rightarrow> fp" where
  "fp_sub rnd x y = fp_add rnd x (fp_neg y)"

fun fp_mul :: "(real \<Rightarrow> fp) \<Rightarrow> fp \<Rightarrow> fp \<Rightarrow> fp" where
  "fp_mul rnd (Fin a) (Fin b) = rnd (a * b)"
| "fp_mul rnd NaN y = NaN"
| "fp_mul rnd x NaN = NaN"
| "fp_mul rnd x y =
     (if x = Fin 0 \<or> y = Fin 0 then NaN
      else if fp_less (Fin 0) x = fp_less (Fin 0) y then PInf else MInf)"

fun fp_div :: "(real \<Rightarrow> fp) \<Rightarrow> fp \<Rightarrow> fp \<Rightarrow> fp" where
  "fp_div rnd (Fin a) (Fin b) =
     (if b = 0 then (if a = 0 then NaN else if 0 < a then PInf else MInf) else rnd (a / b))"
| "fp_div rnd NaN y = NaN"
| "fp_div rnd x NaN = NaN"
| "fp_div rnd (Fin a) y = Fin 0"
| "fp_div rnd x (Fin b) = (if fp_less (Fin 0) x = (0 \<le> b) then PInf else MInf)"
| "fp_div rnd x y = NaN"

text \<open>The conversion of a double to single precision, as \<open>torch.Tensor\<close> does it.\<close>

fun to_float32 :: "fp \<Rightarrow> fp" where
  "to_float32 (Fin r) = round32 r"
| "to_float32 x = x"

text \<open>
  \<open>np.min\<close> and \<open>np.max\<close> of a one-dimensional array: ValueError on an array of size
  zero; a \<open>nan\<close> anywhere in the array makes the result \<open>nan\<close>.
\<close>

fun fp_minimum :: "fp \<Rightarrow> fp \<Rightarrow> fp" where
  "fp_minimum NaN y = NaN"
| "fp_minimum x NaN = NaN"
| "fp_minimum x y = (if fp_less y x then y else x)"

fun fp_maximum :: "fp \<Rightarrow> fp \<Rightarrow> fp" where
  "fp_maximum NaN y = NaN"
| "fp_maximum x NaN = NaN"
| "fp_maximum x y = (if fp_less x y then y else x)"

definition np_min :: "fp list \<Rightarrow> error + fp" where
  "np_min x = (case x of [] \<Rightarrow> Inl ValueError | v # vs \<Rightarrow> Inr (fold (\<lambda>u m. fp_minimum m u) vs v))"

definition np_max :: "fp list \<Rightarrow> error + fp" where
  "np_max x = (case x of [] \<Rightarrow> Inl ValueError | v # vs \<Rightarrow> Inr (fold (\<lambda>u m. fp_maximum m u) vs v))"

section \<open>The dataset assembler: \<open>load_dataset\<close>\<close>

subsection \<open>Arrays\<close>

text \<open>
  A one-dimensional array is the list of its elements. An array of two or three
  dimensions can have no row or no sample and still have a shape, so it carries the sizes
  of its inner axes beside its contents: a two-dimensional array has a width and rows, a
  three-dimensional one (sample, time step, latent dimension) has a number of time
  steps, a width and samples. The contents of an array fit the sizes it declares
  (\<open>well_shaped2\<close>, \<open>well_shaped3\<close>); a value whose contents do not fit stands for no
  array of that many dimensions, and the operations refuse it where numpy would find too
  few axes or uneven rows.
\<close>

record array2 =
  width2 :: nat
  rows :: "fp list list"

record array3 =
  steps :: nat
  width3 :: nat
  samples :: "fp list list list"

definition well_shaped2 :: "array2 \<Rightarrow> bool" where
  "well_shaped2 a = list_all (\<lambda>r. length r = width2 a) (rows a)"

definition well_shaped3 :: "array3 \<Rightarrow> bool" where
  "well_shaped3 a =
     list_all (\<lambda>s. length s = steps a \<and> list_all (\<lambda>r. length r = width3 a) s) (samples a)"

text \<open>
  \<open>np.load\<close> of one episode file gives six positionally indexed arrays:
  \<open>dataset[0]\<close> latents, \<open>dataset[1]\<close> camera distances, \<open>dataset[2]\<close> azimuths,
  \<open>dataset[3]\<close> elevations, \<open>dataset[4]\<close> (never read) and \<open>dataset[5]\<close> target
  coordinates. Six arrays of different shapes in one file are stored as pickled objects;
  the call has no \<open>allow_pickle\<close> argument, which is how numpy before 1.16.3 reads
  them. A file that cannot be read at all is not modelled.
\<close>

record episode =
  latent_array :: array3
  distance_array :: "fp list"
  azimuth_array :: "fp list"
  elevation_array :: "fp list"
  index_array :: "fp list"
  target_array :: array2

text \<open>
  \<open>dataset[0][:, 0, :]\<close>: the row at time step 0 of every sample, a two-dimensional
  array of the width of the latents. Index 0 is out of bounds when the time axis has
  length zero, whether or not there is a sample; an array of fewer than three dimensions
  has too many indices. Both are an IndexError.
\<close>

definition first_time_step :: "array3 \<Rightarrow> error + array2" where
  "first_time_step a =
     (if well_shaped3 a \<and> 0 < steps a
      then Inr \<lparr>width2 = width3 a, rows = map hd (samples a)\<rparr>
      else Inl IndexError)"

text \<open>The five lists the loop over the files appends to.\<close>

record packages =
  latents_pk :: "array2 list"
  camera_distances_pk :: "fp list list"
  azimuths_pk :: "fp list list"
  elevations_pk :: "fp list list"
  target_coords_pk :: "array2 list"

definition no_packages :: packages where
  "no_packages = \<lparr>latents_pk = [], camera_distances_pk = [], azimuths_pk = [],
     elevations_pk = [], target_coords_pk = []\<rparr>"

fun read_files :: "episode list \<Rightarrow> packages \<Rightarrow> error + packages" where
  "read_files [] acc = Inr acc"
| "read_files (dataset # data_files) acc =
     and_then (first_time_step (latent_array dataset)) (\<lambda>l.
       read_files data_files
         \<lparr>latents_pk = latents_pk acc @ [l],
          camera_distances_pk = camera_distances_pk acc @ [distance_array dataset],
          azimuths_pk = azimuths_pk acc @ [azimuth_array dataset],
          elevations_pk = elevations_pk acc @ [elevation_array dataset],
          target_coords_pk = target_coords_pk acc @ [target_array dataset]\<rparr>)"

text \<open>
  \<open>np.concatenate\<close> along the sample axis raises ValueError on an empty list of arrays
  and, for two-dimensional arrays, when the widths differ. The result of the second is
  kept as its rows.
\<close>

definition np_concatenate :: "'a list list \<Rightarrow> error + 'a list" where
  "np_concatenate arrs = (if arrs = [] then Inl ValueError else Inr (concat arrs))"

definition np_concatenate_rows :: "array2 list \<Rightarrow> error + fp list list" where
  "np_concatenate_rows arrs =
     (if arrs = [] then Inl ValueError
      else if list_all (\<lambda>a. well_shaped2 a \<and> width2 a = width2 (hd arrs)) arrs
      then Inr (concat (map rows arrs))
      else Inl ValueError)"

text \<open>
  \<open>(x - np.min(x)) / (np.max(x) - np.min(x))\<close> in double precision, element by
  element. On a constant channel every quotient is \<open>0 / 0\<close>, which numpy evaluates to
  \<open>nan\<close> with a warning and no exception.
\<close>

definition min_max_normalize :: "fp list \<Rightarrow> error + fp list" where
  "min_max_normalize x =
     and_then (np_min x) (\<lambda>lo.
     and_then (np_max x) (\<lambda>hi.
       Inr (map (\<lambda>u. fp_div round64 (fp_sub round64 u lo) (fp_sub round64 hi lo)) x)))"

text \<open>The arrays after concatenation and normalisation (lines 42 to 51).\<close>

record arrays =
  latents :: "fp list list"
  camera_distances :: "fp list"
  azimuths :: "fp list"
  elevations :: "fp list"
  target_coords :: "fp list list"

definition assemble :: "episode list \<Rightarrow> error + arrays" where
  "assemble data_files =
     and_then (read_files data_files no_packages) (\<lambda>pk.
     and_then (np_concatenate_rows (latents_pk pk)) (\<lambda>l.
     and_then (np_concatenate (camera_distances_pk pk)) (\<lambda>d.
     and_then (np_concatenate (azimuths_pk pk)) (\<lambda>a.
     and_then (np_concatenate (elevations_pk pk)) (\<lambda>e.
     and_then (np_concatenate_rows (target_coords_pk pk)) (\<lambda>t.
     and_then (min_max_normalize d) (\<lambda>nd.
     and_then (min_max_normalize a) (\<lambda>na.
     and_then (min_max_normalize e) (\<lambda>ne.
       Inr \<lparr>latents = l, camera_distances = nd, azimuths = na, elevations = ne,
            target_coords = t\<rparr>)))))))))"

text \<open>
  The product of two boolean arrays follows numpy's broadcasting: equal lengths multiply
  element by element, an array of length one is stretched, anything else is a ValueError.
\<close>

definition mask_times :: "bool list \<Rightarrow> bool list \<Rightarrow> error + bool list" where
  "mask_times xs ys =
     (if length xs = length ys then Inr (map (\<lambda>(x, y). x \<and> y) (zip xs ys))
      else if length xs = 1 then Inr (map (\<lambda>y. hd xs \<and> y) ys)
      else if length ys = 1 then Inr (map (\<lambda>x. x \<and> hd ys) xs)
      else Inl ValueError)"

text \<open>\<open>a[mask]\<close>: the mask must be as long as the array.\<close>

definition mask_index :: "'a list \<Rightarrow> bool list \<Rightarrow> error + 'a list" where
  "mask_index xs bs =
     (if length bs = length xs then Inr (map fst (filter snd (zip xs bs)))
      else Inl IndexError)"

text \<open>\<open>a[0]\<close>.\<close>

definition first_elem :: "'a list \<Rightarrow> error + 'a" where
  "first_elem xs = (case xs of [] \<Rightarrow> Inl IndexError | x # _ \<Rightarrow> Inr x)"

text \<open>\<open>a[indices]\<close> with an array of non-negative integers.\<close>

definition take_indices :: "'a list \<Rightarrow> nat list \<Rightarrow> error + 'a list" where
  "take_indices xs indices =
     (if list_all (\<lambda>i. i < length xs) indices then Inr (map (nth xs) indices)
      else Inl IndexError)"

text \<open>
  \<open>np.concatenate([latents, d[:, None], a[:, None], e[:, None]], axis=1)\<close>: the four
  arrays must have the same number of rows.
\<close>

definition concatenate_columns ::
  "fp list list \<Rightarrow> fp list \<Rightarrow> fp list \<Rightarrow> fp list \<Rightarrow> error + fp list list" where
  "concatenate_columns l d a e =
     (if length d = length l \<and> length a = length l \<and> length e = length l
      then Inr (map (\<lambda>(r, x, y, z). r @ [x, y, z]) (zip l (zip d (zip a e))))
      else Inl ValueError)"

text \<open>
  \<open>torch.Tensor\<close> of a numpy array of doubles is a tensor of single-precision numbers.
  \<open>data.TensorDataset(inputs, target_coord)\<close> asserts that both tensors have the same
  first dimension; its length is that dimension and item \<open>i\<close> is the pair of rows \<open>i\<close>.
\<close>

definition Tensor :: "fp list list \<Rightarrow> fp list list" where
  "Tensor a = map (map to_float32) a"

record tensor_dataset =
  inputs :: "fp list list"
  targets :: "fp list list"

definition TensorDataset :: "fp list list \<Rightarrow> fp list list \<Rightarrow> error + tensor_dataset" where
  "TensorDataset i t =
     (if length i = length t then Inr \<lparr>inputs = i, targets = t\<rparr> else Inl AssertionError)"

definition len :: "tensor_dataset \<Rightarrow> nat" where
  "len ds = length (inputs ds)"

text \<open>
  The fixed-camera branch (lines 56 to 65). The mask multiplies the comparison of the
  distances with the first distance, of the \<^emph>\<open>elevations\<close> with the first \<^emph>\<open>azimuth\<close>
  and of the \<^emph>\<open>azimuths\<close> with the first \<^emph>\<open>elevation\<close>, as the source does.
\<close>

definition fixed_camera_select :: "arrays \<Rightarrow> error + (fp list list \<times> fp list list)" where
  "fixed_camera_select A =
     and_then (first_elem (camera_distances A)) (\<lambda>distance.
     and_then (first_elem (azimuths A)) (\<lambda>azimuth.
     and_then (first_elem (elevations A)) (\<lambda>elevation.
     and_then (mask_times (map (\<lambda>x. np_eq x distance) (camera_distances A))
                          (map (\<lambda>x. np_eq x azimuth) (elevations A))) (\<lambda>m.
     and_then (mask_times m (map (\<lambda>x. np_eq x elevation) (azimuths A))) (\<lambda>fixed_indices.
     and_then (mask_index (latents A) fixed_indices) (\<lambda>i.
     and_then (mask_index (target_coords A) fixed_indices) (\<lambda>t.
       Inr (i, t))))))))"

text \<open>
  The debug branch (lines 72 to 74). \<open>np.random.random_integers(0, n, 10)\<close> draws ten
  integers from the closed range \<open>0 .. n\<close>; the draw is the parameter \<open>indices\<close>.
\<close>

definition random_integers_range :: "nat \<Rightarrow> nat \<Rightarrow> nat list \<Rightarrow> bool" where
  "random_integers_range high k indices =
     (length indices = k \<and> list_all (\<lambda>i. i \<le> high) indices)"

definition debug_subsample ::
  "nat list \<Rightarrow> fp list list \<times> fp list list \<Rightarrow> error + (fp list list \<times> fp list list)" where
  "debug_subsample indices p =
     and_then (take_indices (fst p) indices) (\<lambda>i.
     and_then (take_indices (snd p) indices) (\<lambda>t.
       Inr (i, t)))"

text \<open>
  \<open>load_dataset\<close>. \<open>data_files\<close> are the files of the directory in the order of
  \<open>os.listdir\<close>; \<open>indices\<close> is what the random generator returns in the debug branch.
\<close>

definition load_dataset :: "episode list \<Rightarrow> bool \<Rightarrow> bool \<Rightarrow> nat list \<Rightarrow> error + tensor_dataset" where
  "load_dataset data_files fixed_camera debug indices =
     and_then (assemble data_files) (\<lambda>A.
     and_then (if fixed_camera then fixed_camera_select A
               else and_then (concatenate_columns (latents A) (camera_distances A)
                                (azimuths A) (elevations A))
                      (\<lambda>i. Inr (i, target_coords A))) (\<lambda>p.
     and_then (if debug then debug_subsample indices p else Inr p) (\<lambda>q.
       TensorDataset (Tensor (fst q)) (Tensor (snd q)))))"

section \<open>Command-line arguments: \<open>parse_arguments\<close>\<close>

text \<open>
  An attribute of the namespace holds a string, an integer, a float or a boolean. The
  namespace is an association list from attribute names to values; reading an attribute
  that is not there raises AttributeError.
\<close>

datatype argval = StrV string | IntV int | FloatV real | BoolV bool

type_synonym namespace = "(string \<times> argval) list"

definition getattr :: "namespace \<Rightarrow> string \<Rightarrow> error + argval" where
  "getattr args name =
     (case map_of args name of None \<Rightarrow> Inl (AttributeError name) | Some v \<Rightarrow> Inr v)"

definition hasattr :: "namespace \<Rightarrow> string \<Rightarrow> bool" where
  "hasattr args name = (name \<in> set (map fst args))"

definition setdefault :: "string \<Rightarrow> argval \<Rightarrow> namespace \<Rightarrow> namespace" where
  "setdefault name v ns = (if hasattr ns name then ns else ns @ [(name, v)])"

definition setattr :: "string \<Rightarrow> argval \<Rightarrow> namespace \<Rightarrow> namespace" where
  "setattr name v ns =
     (if hasattr ns name then map (\<lambda>(k, x). if k = name then (k, v) else (k, x)) ns
      else ns @ [(name, v)])"

text \<open>
  What \<open>argparse\<close> keeps of an argument: its option string, the attribute it sets
  (\<open>dest\<close>), how a command-line occurrence is stored and the default. \<open>store_true\<close> is
  \<open>StoreConst (BoolV True)\<close> with default \<open>False\<close>, \<open>store_false\<close> the opposite.
  The parser also keeps the parser-level defaults of \<open>set_defaults\<close>.
\<close>

datatype arg_kind = StoreInt | StoreFloat | StoreStr | StoreConst argval

record action =
  option_string :: string
  dest :: string
  kind :: arg_kind
  default_value :: argval

record parser =
  actions :: "action list"
  defaults :: "(string \<times> argval) list"

definition ArgumentParser :: parser where
  "ArgumentParser = \<lparr>actions = [], defaults = []\<rparr>"

text \<open>
  Without \<open>dest=\<close> the attribute name is the option string without its leading dashes
  and with the other dashes turned into underscores.
\<close>

definition option_dest :: "string \<Rightarrow> string" where
  "option_dest opt =
     map (\<lambda>c. if c = CHR ''-'' then CHR ''_'' else c) (dropWhile (\<lambda>c. c = CHR ''-'') opt)"

text \<open>An option string that is already taken is an \<open>argparse.ArgumentError\<close>.\<close>

definition add_argument ::
  "string \<Rightarrow> string option \<Rightarrow> arg_kind \<Rightarrow> argval \<Rightarrow> parser \<Rightarrow> error + parser" where
  "add_argument opt d k v p =
     (if opt \<in> set (map option_string (actions p)) then Inl ArgumentError
      else Inr (p\<lparr>actions := actions p @
                  [\<lparr>option_string = opt,
                    dest = (case d of None \<Rightarrow> option_dest opt | Some x \<Rightarrow> x),
                    kind = k, default_value = v\<rparr>]\<rparr>))"

definition set_defaults :: "string \<Rightarrow> argval \<Rightarrow> parser \<Rightarrow> error + parser" where
  "set_defaults d v p =
     Inr (p\<lparr>actions := map (\<lambda>a. if dest a = d then a\<lparr>default_value := v\<rparr> else a) (actions p),
            defaults := (d, v) # filter (\<lambda>kv. fst kv \<noteq> d) (defaults p)\<rparr>)"

definition behavioural_vae_group :: "parser \<Rightarrow> error + parser" where
  "behavioural_vae_group p0 =
     and_then (add_argument ''--vae-name'' None StoreStr (StrV ''mse_fc_v1'') p0) (\<lambda>p.
     and_then (add_argument ''--latent-dim'' None StoreInt (IntV 5) p) (\<lambda>p.
     and_then (add_argument ''--num_joints'' None StoreInt (IntV 7) p) (\<lambda>p.
     and_then (add_argument ''--num_actions'' None StoreInt (IntV 24) p) (\<lambda>p.
     and_then (add_argument ''--duration'' None StoreFloat (FloatV 0.5) p) (\<lambda>p.
     and_then (add_argument ''--conv'' (Some ''conv'') (StoreConst (BoolV True)) (BoolV False) p) (\<lambda>p.
     and_then (add_argument ''--no-conv'' (Some ''conv'') (StoreConst (BoolV False)) (BoolV True) p) (\<lambda>p.
     and_then (set_defaults ''conv'' (BoolV False) p) (\<lambda>p.
     and_then (add_argument ''--conv-channel'' None StoreInt (IntV 2) p) (\<lambda>p.
     add_argument ''--kernel-row'' None StoreInt (IntV 4) p)))))))))"

definition policy_group :: "parser \<Rightarrow> error + parser" where
  "policy_group p0 =
     and_then (add_argument ''--folder-name'' None StoreStr (StrV ''example'') p0) (\<lambda>p.
     and_then (add_argument ''--iterations'' None StoreInt (IntV 1000) p) (\<lambda>p.
     and_then (add_argument ''--batch-size'' None StoreInt (IntV 5) p) (\<lambda>p.
     and_then (add_argument ''--lr'' None StoreFloat (FloatV 0.001) p) (\<lambda>p.
     and_then (add_argument ''--debug'' (Some ''debug'') (StoreConst (BoolV True)) (BoolV False) p) (\<lambda>p.
     and_then (set_defaults ''debug'' (BoolV False) p) (\<lambda>p.
     and_then (add_argument ''--random-goal'' (Some ''random_goal'') (StoreConst (BoolV True)) (BoolV False) p) (\<lambda>p.
     and_then (set_defaults ''random_goal'' (BoolV False) p) (\<lambda>p.
     and_then (add_argument ''--test'' (Some ''train'') (StoreConst (BoolV False)) (BoolV True) p) (\<lambda>p.
     set_defaults ''train'' (BoolV True) p)))))))))"

definition gibson_group :: "parser \<Rightarrow> error + parser" where
  "gibson_group p0 =
     and_then (add_argument ''--g-name'' None StoreStr (StrV ''rgb_test'') p0) (\<lambda>p.
     add_argument ''--g-latent'' None StoreInt (IntV 10) p)"

definition debug_group :: "parser \<Rightarrow> error + parser" where
  "debug_group p0 = add_argument ''--dataset-name'' None StoreStr (StrV ''lumi_rtt_star_v2'') p0"

definition feedforward_group :: "parser \<Rightarrow> error + parser" where
  "feedforward_group p0 =
     and_then (add_argument ''--random-goal'' (Some ''random_goal'') (StoreConst (BoolV True)) (BoolV False) p0) (\<lambda>p.
     and_then (set_defaults ''random_goal'' (BoolV False) p) (\<lambda>p.
     and_then (add_argument ''--policy-name'' None StoreStr (StrV ''example'') p) (\<lambda>p.
     and_then (add_argument ''--num-steps'' None StoreInt (IntV 10) p) (\<lambda>p.
     add_argument ''--model-index'' None StoreInt (IntV (- 1)) p))))"

text \<open>
  \<open>parser.parse_args()\<close>. The namespace first receives the default of every action and
  every parser-level default; then each occurrence on the command line stores its value.
  The command line is a list of occurrences: an option string and, for an option that
  takes one, its converted value. An option string the parser does not know, a missing
  value or a value of the wrong type ends the process (\<open>SystemExit\<close>). Abbreviated
  option strings are not modelled.
\<close>

type_synonym occurrence = "string \<times> argval option"

definition initial_namespace :: "parser \<Rightarrow> namespace" where
  "initial_namespace p =
     fold (\<lambda>kv ns. setdefault (fst kv) (snd kv) ns) (defaults p)
       (fold (\<lambda>a ns. setdefault (dest a) (default_value a) ns) (actions p) [])"

fun stored :: "arg_kind \<Rightarrow> argval option \<Rightarrow> argval option" where
  "stored StoreInt (Some (IntV n)) = Some (IntV n)"
| "stored StoreFloat (Some (FloatV r)) = Some (FloatV r)"
| "stored StoreStr (Some (StrV s)) = Some (StrV s)"
| "stored (StoreConst c) None = Some c"
| "stored _ _ = None"

fun store_occurrences :: "parser \<Rightarrow> occurrence list \<Rightarrow> namespace \<Rightarrow> error + namespace" where
  "store_occurrences p [] ns = Inr ns"
| "store_occurrences p (occ # rest) ns =
     (case find (\<lambda>a. option_string a = fst occ) (actions p) of
        None \<Rightarrow> Inl SystemExit
      | Some a \<Rightarrow>
          (case stored (kind a) (snd occ) of
             None \<Rightarrow> Inl SystemExit
           | Some w \<Rightarrow> store_occurrences p rest (setattr (dest a) w ns)))"

definition parse_args :: "parser \<Rightarrow> occurrence list \<Rightarrow> error + namespace" where
  "parse_args p argv = store_occurrences p argv (initial_namespace p)"

definition parse_arguments ::
  "bool \<Rightarrow> bool \<Rightarrow> bool \<Rightarrow> bool \<Rightarrow> bool \<Rightarrow> occurrence list \<Rightarrow> error + namespace" where
  "parse_arguments behavioural_vae policy gibson debug feedforward argv =
     and_then (if behavioural_vae then behavioural_vae_group ArgumentParser
               else Inr ArgumentParser) (\<lambda>p.
     and_then (if policy then policy_group p else Inr p) (\<lambda>p.
     and_then (if gibson then gibson_group p else Inr p) (\<lambda>p.
     and_then (if debug then debug_group p else Inr p) (\<lambda>p.
     and_then (if feedforward then feedforward_group p else Inr p) (\<lambda>p.
       parse_args p argv)))))"

section \<open>The training script: \<open>main\<close>\<close>

subsection \<open>Attribute values as Python uses them\<close>

text \<open>
  \<open>v > 0\<close> (line 89), the truth value of \<open>v\<close> (lines 71 and 104), \<open>v + 3\<close> (line 107),
  \<open>os.path.join\<close> with \<open>v\<close> and \<open>range(v)\<close>, with Python 3's TypeError where the type
  does not fit. A boolean counts as the integer 0 or 1.
\<close>

fun greater_than_zero :: "argval \<Rightarrow> error + bool" where
  "greater_than_zero (IntV n) = Inr (0 < n)"
| "greater_than_zero (FloatV r) = Inr (0 < r)"
| "greater_than_zero (BoolV b) = Inr b"
| "greater_than_zero (StrV s) = Inl TypeError"

fun truthy :: "argval \<Rightarrow> bool" where
  "truthy (BoolV b) = b"
| "truthy (IntV n) = (n \<noteq> 0)"
| "truthy (FloatV r) = (r \<noteq> 0)"
| "truthy (StrV s) = (s \<noteq> [])"

fun plus_three :: "argval \<Rightarrow> error + argval" where
  "plus_three (IntV n) = Inr (IntV (n + 3))"
| "plus_three (FloatV r) = Inr (FloatV (r + 3))"
| "plus_three (BoolV b) = Inr (IntV ((if b then 1 else 0) + 3))"
| "plus_three (StrV s) = Inl TypeError"

fun as_path :: "argval \<Rightarrow> error + string" where
  "as_path (StrV s) = Inr s"
| "as_path _ = Inl TypeError"

fun range_of :: "argval \<Rightarrow> error + nat list" where
  "range_of (IntV n) = Inr [0..<nat n]"
| "range_of (BoolV b) = Inr [0..<(if b then 1 else 0)]"
| "range_of _ = Inl TypeError"

text \<open>\<open>os.path.join\<close> of two components on a POSIX system.\<close>

definition path_join :: "string \<Rightarrow> string \<Rightarrow> string" where
  "path_join a b =
     (if b \<noteq> [] \<and> hd b = CHR ''/'' then b
      else if a = [] \<or> last a = CHR ''/'' then a @ b
      else a @ ''/'' @ b)"

subsection \<open>The collaborators and the sources of randomness\<close>

text \<open>
  The predictor, the decoder, the kinematics function, the loss and the optimiser are
  defined outside the two source files; so are the angle constants \<open>MIN_ANGLE\<close> and
  \<open>MAX_ANGLE\<close> (imported from \<open>behavioural_vae.utils\<close>), taken to be Python floats.
  They are parameters of the model, as are the directory listing and every random draw.
  Tensors hold single-precision numbers, infinities and \<open>nan\<close> included, and the loss of
  a batch is the Python float of \<open>loss.item()\<close>. \<open>np.mean\<close> of a list of losses is a
  parameter too: in which order numpy adds the elements, and so how the mean is rounded,
  is left open. \<open>'p\<close> is the type of the predictor's parameters; \<open>optimizer_step\<close>
  stands for \<open>loss.backward()\<close>, \<open>optimizer.step()\<close> and
  \<open>optimizer.zero_grad()\<close> on one batch.
\<close>

record 'p environment =
  MIN_ANGLE :: fp
  MAX_ANGLE :: fp
  Predictor :: "argval \<Rightarrow> argval \<Rightarrow> 'p"
  policy :: "'p \<Rightarrow> fp list list \<Rightarrow> fp list list"
  traj_decoder :: "fp list list \<Rightarrow> fp list list"
  to_trajectory :: "fp list list \<Rightarrow> fp list list list"
  end_effector_pose :: "fp list list \<Rightarrow> fp list list"
  mse_loss :: "fp list list \<Rightarrow> fp list list \<Rightarrow> fp"
  np_mean :: "fp list \<Rightarrow> fp"
  optimizer_step :: "'p \<Rightarrow> fp list list \<Rightarrow> fp list list \<Rightarrow> 'p"
  listdir :: "episode list"
  random_integers :: "nat list"
  randperm :: "nat list"
  shuffled :: "nat \<Rightarrow> nat list \<Rightarrow> nat list"

subsection \<open>Effects\<close>

text \<open>
  What a run does to the outside world is a trace of events, in order:
  \<open>save_arguments(args, save_path)\<close>, the construction of \<open>ROSTrajectoryVAE\<close>, the
  reading of the dataset directory, one optimiser step per training batch, the mean
  validation loss of an epoch (printed at line 222), \<open>torch.save\<close> of the predictor to a
  path and the writing of a figure to a path. Epochs are numbered from 1, as the script
  prints them. No event removes a file: the script never deletes anything.

  A program takes the trace so far and returns an error or a value together with the
  extended trace, so that the events before an exception are kept.
\<close>

datatype event =
    SavedArguments string
  | BuiltDecoder
  | ReadDataset
  | OptimizerStep nat
  | Validated nat fp
  | SavedModel string nat
  | Plotted string

type_synonym 'a prog = "event list \<Rightarrow> (error + 'a) \<times> event list"

definition ret :: "'a \<Rightarrow> 'a prog" where
  "ret x tr = (Inr x, tr)"

definition throw :: "error \<Rightarrow> 'a prog" where
  "throw e tr = (Inl e, tr)"

definition lift :: "error + 'a \<Rightarrow> 'a prog" where
  "lift r tr = (r, tr)"

definition emit :: "event \<Rightarrow> unit prog" where
  "emit ev tr = (Inr (), tr @ [ev])"

definition bnd :: "'a prog \<Rightarrow> ('a \<Rightarrow> 'b prog) \<Rightarrow> 'b prog" where
  "bnd m f tr = (case m tr of (Inl e, tr') \<Rightarrow> (Inl e, tr') | (Inr x, tr') \<Rightarrow> f x tr')"

subsection \<open>The split into training and validation partitions (lines 115 to 118)\<close>

text \<open>
  \<open>int(dataset.__len__() * 0.7)\<close> multiplies in double precision. The double nearest to
  0.7 is \<open>6305039478318694 / 2 ^ 53\<close>; the product of a length \<open>n < 2 ^ 53\<close> with it is
  the exact product rounded to 53 significant bits, ties to even, and \<open>int\<close> drops the
  fraction. \<open>round_53_bits\<close> rounds a natural number that way; scaling by \<open>2 ^ 53\<close>
  does not change the rounding.
\<close>

definition double_0_7 :: nat where
  "double_0_7 = 6305039478318694"

definition round_53_bits :: "nat \<Rightarrow> nat" where
  "round_53_bits N =
     (let L = floorlog 2 N
      in if L \<le> 53 then N
         else let s = L - 53; q = N div 2 ^ s; r = N mod 2 ^ s; h = 2 ^ (s - 1)
              in (if h < r \<or> (r = h \<and> odd q) then q + 1 else q) * 2 ^ s)"

definition int_times_0_7 :: "nat \<Rightarrow> nat" where
  "int_times_0_7 n = round_53_bits (n * double_0_7) div 2 ^ 53"

text \<open>
  \<open>torch.utils.data.random_split(dataset, lengths)\<close> raises ValueError unless the
  lengths add up to the length of the dataset, draws a random permutation of the indices
  and cuts it into consecutive pieces of the given lengths. The permutation is a
  parameter.
\<close>

fun pieces :: "nat list \<Rightarrow> 'a list \<Rightarrow> 'a list list" where
  "pieces [] xs = []"
| "pieces (l # ls) xs = take l xs # pieces ls (drop l xs)"

definition random_split :: "nat \<Rightarrow> nat list \<Rightarrow> nat list \<Rightarrow> error + nat list list" where
  "random_split n lengths perm =
     (if sum_list lengths = n then Inr (pieces lengths perm) else Inl ValueError)"

definition split_dataset :: "nat \<Rightarrow> nat list \<Rightarrow> error + (nat list \<times> nat list)" where
  "split_dataset n perm =
     (let train_size = int_times_0_7 n;
          test_size = n - train_size
      in and_then (random_split n [train_size, test_size] perm) (\<lambda>parts.
           case parts of [trainset, testset] \<Rightarrow> Inr (trainset, testset) | _ \<Rightarrow> Inl ValueError))"

subsection \<open>One batch (lines 143 to 170 and 189 to 214)\<close>

text \<open>
  \<open>trajectories[:, :, -1]\<close>: the last time step of every joint of every sample; index
  \<open>-1\<close> is out of bounds when the time axis is empty.
\<close>

definition last_joint_pose :: "fp list list list \<Rightarrow> error + fp list list" where
  "last_joint_pose trajectories =
     (if list_ex (\<lambda>joints. [] \<in> set joints) trajectories then Inl IndexError
      else Inr (map (map last) trajectories))"

text \<open>
  The product of a Python float with a tensor and the sum of a tensor and a Python float:
  torch converts the float to the precision of the tensor and computes element by element
  in single precision.
\<close>

definition scalar_mul :: "fp \<Rightarrow> fp list list \<Rightarrow> fp list list" where
  "scalar_mul c t = map (map (\<lambda>x. fp_mul round32 (to_float32 c) x)) t"

definition add_scalar :: "fp list list \<Rightarrow> fp \<Rightarrow> fp list list" where
  "add_scalar t c = map (map (\<lambda>x. fp_add round32 x (to_float32 c))) t"

record batch_result =
  loss_of :: fp
  end_pose_of :: "fp list list"
  latent_of :: "fp list list"

definition train_batch ::
  "'p environment \<Rightarrow> 'p \<Rightarrow> fp list list \<Rightarrow> fp list list \<Rightarrow> error + ('p \<times> batch_result)" where
  "train_batch env \<theta> latent_1 target_pose =
     (let latent_2 = policy env \<theta> latent_1;
          trajectories = to_trajectory env (traj_decoder env latent_2)
      in and_then (last_joint_pose trajectories) (\<lambda>end_joint_pose.
           let end_joint_pose =
                 add_scalar (scalar_mul (fp_sub round64 (MAX_ANGLE env) (MIN_ANGLE env))
                                        end_joint_pose) (MIN_ANGLE env);
               end_pose = end_effector_pose env end_joint_pose;
               loss = mse_loss env end_pose target_pose
           in Inr (optimizer_step env \<theta> latent_1 target_pose,
                   \<lparr>loss_of = loss, end_pose_of = end_pose, latent_of = latent_2\<rparr>)))"

definition val_batch ::
  "'p environment \<Rightarrow> 'p \<Rightarrow> fp list list \<Rightarrow> fp list list \<Rightarrow> error + batch_result" where
  "val_batch env \<theta> latent_1 target_pose =
     (let latent_2 = policy env \<theta> latent_1;
          trajectories = to_trajectory env (traj_decoder env latent_2)
      in and_then (last_joint_pose trajectories) (\<lambda>end_joint_pose.
           let end_joint_pose =
                 add_scalar (scalar_mul (fp_sub round64 (MAX_ANGLE env) (MIN_ANGLE env))
                                        end_joint_pose) (MIN_ANGLE env);
               end_pose = end_effector_pose env end_joint_pose;
               loss = mse_loss env end_pose target_pose
           in Inr \<lparr>loss_of = loss, end_pose_of = end_pose, latent_of = latent_2\<rparr>))"

subsection \<open>The data loaders\<close>

text \<open>
  A \<open>DataLoader\<close> cuts the indices of its partition into batches of \<open>batch_size\<close>, the
  last one possibly shorter; its constructor refuses a negative number of workers and a
  batch size that is not a positive integer (ValueError). A number of workers that is not
  an integer is taken to be a TypeError. With \<open>shuffle=True\<close> the indices are reordered at random for
  every epoch (the parameter \<open>shuffled\<close>). A batch is the rows of the dataset at its
  indices.
\<close>

function batches :: "nat \<Rightarrow> 'a list \<Rightarrow> 'a list list" where
  "batches b xs = (if b = 0 \<or> xs = [] then [] else take b xs # batches b (drop b xs))"
  by pat_completeness auto
termination
  by (relation "measure (\<lambda>(b, xs). length xs)") auto

declare batches.simps [simp del]

fun batch_size_of :: "argval \<Rightarrow> error + nat" where
  "batch_size_of (IntV n) = (if 0 < n then Inr (nat n) else Inl ValueError)"
| "batch_size_of _ = Inl ValueError"

fun num_workers_of :: "argval \<Rightarrow> error + unit" where
  "num_workers_of (IntV n) = (if n < 0 then Inl ValueError else Inr ())"
| "num_workers_of (BoolV b) = Inr ()"
| "num_workers_of _ = Inl TypeError"

definition get_batch ::
  "tensor_dataset \<Rightarrow> nat list \<Rightarrow> error + (fp list list \<times> fp list list)" where
  "get_batch ds indices =
     and_then (take_indices (inputs ds) indices) (\<lambda>i.
     and_then (take_indices (targets ds) indices) (\<lambda>t.
       Inr (i, t)))"

subsection \<open>One epoch (lines 131 to 236)\<close>

record 'p loop_context =
  env_of :: "'p environment"
  dataset_of :: tensor_dataset
  trainset_of :: "nat list"
  testset_of :: "nat list"
  loader_batch_size :: nat
  save_dir :: string

fun train_pass ::
  "'p loop_context \<Rightarrow> nat \<Rightarrow> nat list list \<Rightarrow> 'p \<Rightarrow> batch_result list \<Rightarrow> ('p \<times> batch_result list) prog" where
  "train_pass S epoch [] \<theta> done_batches = ret (\<theta>, done_batches)"
| "train_pass S epoch (b # bs) \<theta> done_batches =
     bnd (lift (get_batch (dataset_of S) b)) (\<lambda>(input, target_pose).
     bnd (lift (train_batch (env_of S) \<theta> input target_pose)) (\<lambda>(\<theta>', r).
     bnd (emit (OptimizerStep (epoch + 1))) (\<lambda>_.
       train_pass S epoch bs \<theta>' (done_batches @ [r]))))"

fun val_pass ::
  "'p loop_context \<Rightarrow> nat list list \<Rightarrow> 'p \<Rightarrow> batch_result list \<Rightarrow> batch_result list prog" where
  "val_pass S [] \<theta> done_batches = ret done_batches"
| "val_pass S (b # bs) \<theta> done_batches =
     bnd (lift (get_batch (dataset_of S) b)) (\<lambda>(latent_1, target_pose).
     bnd (lift (val_batch (env_of S) \<theta> latent_1 target_pose)) (\<lambda>r.
       val_pass S bs \<theta> (done_batches @ [r])))"

text \<open>
  One turn of the loop. The state is the predictor and \<open>best_val\<close>, a Python float that
  starts as \<open>np.inf\<close>; \<open>avg_loss < best_val\<close> is the comparison of two floats, false
  when \<open>avg_loss\<close> is \<open>nan\<close> or \<open>inf\<close> at the start. \<open>np.concatenate(end_poses)\<close>
  raises ValueError when a pass had no batch (lines 176 and 217), after the mean of line
  216 has been taken.
\<close>

definition run_epoch :: "'p loop_context \<Rightarrow> nat \<Rightarrow> 'p \<times> fp \<Rightarrow> ('p \<times> fp) prog" where
  "run_epoch S epoch st =
     bnd (train_pass S epoch
            (batches (loader_batch_size S) (shuffled (env_of S) epoch (trainset_of S))) (fst st) [])
       (\<lambda>(\<theta>, trained).
     bnd (if trained = [] then throw ValueError else ret ()) (\<lambda>_.
     bnd (val_pass S (batches 10000 (testset_of S)) \<theta> []) (\<lambda>validated.
     let avg_loss = np_mean (env_of S) (map loss_of validated) in
     bnd (if validated = [] then throw ValueError else ret ()) (\<lambda>_.
     bnd (emit (Validated (epoch + 1) avg_loss)) (\<lambda>_.
     bnd (if fp_less avg_loss (snd st)
          then bnd (emit (SavedModel (path_join (save_dir S) ''model.pth.tar'') (epoch + 1)))
                 (\<lambda>_. ret avg_loss)
          else ret (snd st)) (\<lambda>best_val.
     bnd (emit (Plotted (path_join (save_dir S) ''train_scatter.png''))) (\<lambda>_.
     bnd (emit (Plotted (path_join (save_dir S) ''val_scatter.png''))) (\<lambda>_.
     bnd (emit (Plotted (path_join (save_dir S) ''full_scatter.png''))) (\<lambda>_.
     bnd (emit (Plotted (path_join (save_dir S) ''latents_distribution.png''))) (\<lambda>_.
     bnd (emit (Plotted (path_join (save_dir S) ''avg_mse.png''))) (\<lambda>_.
     bnd (emit (Plotted (path_join (save_dir S) ''avg_log_mse.png''))) (\<lambda>_.
       ret (\<theta>, best_val)))))))))))))"

fun epoch_loop :: "'p loop_context \<Rightarrow> nat list \<Rightarrow> 'p \<times> fp \<Rightarrow> unit prog" where
  "epoch_loop S [] st = ret ()"
| "epoch_loop S (epoch # rest) st = bnd (run_epoch S epoch st) (\<lambda>st'. epoch_loop S rest st')"

subsection \<open>\<open>main\<close>\<close>

text \<open>
  \<open>main\<close> in three parts: the save path and the assertion on \<open>model_index\<close> (lines 84
  to 89), the decoder, the dataset, the predictor, the split and the loaders (lines 91 to
  121), and the loop over the epochs (lines 123 to 236). The attributes are read in the
  order of the source. Failures inside the collaborators (\<open>save_arguments\<close>,
  \<open>ROSTrajectoryVAE\<close>, \<open>Predictor\<close>, the plots) are not modelled, and \<open>assert\<close>
  statements are enabled (Python is not run with \<open>-O\<close>). The last line of the script
  calls \<open>main\<close> on the namespace that
  \<open>parse_arguments(behavioural_vae=True, policy=True, gibson=True)\<close> returns; the imports
  at the head of the script are outside the model.
\<close>

definition check_arguments :: "namespace \<Rightarrow> string prog" where
  "check_arguments args =
     bnd (lift (getattr args ''policy_name'')) (\<lambda>policy_name.
     bnd (lift (as_path policy_name)) (\<lambda>name.
     bnd (emit (SavedArguments (path_join ''../policy_log'' name))) (\<lambda>_.
     bnd (lift (getattr args ''model_index'')) (\<lambda>model_index.
     bnd (lift (greater_than_zero model_index)) (\<lambda>positive.
     bnd (if positive then ret () else throw AssertionError) (\<lambda>_.
       ret (path_join ''../policy_log'' name)))))))"

definition prepare :: "'p environment \<Rightarrow> namespace \<Rightarrow> string \<Rightarrow> ('p loop_context \<times> 'p) prog" where
  "prepare env args save_path =
     bnd (lift (getattr args ''vae_name'')) (\<lambda>_.
     bnd (lift (getattr args ''latent_dim'')) (\<lambda>_.
     bnd (lift (getattr args ''num_actions'')) (\<lambda>_.
     bnd (lift (getattr args ''model_index'')) (\<lambda>_.
     bnd (lift (getattr args ''num_joints'')) (\<lambda>_.
     bnd (emit BuiltDecoder) (\<lambda>_.
     bnd (lift (getattr args ''g_name'')) (\<lambda>_.
     bnd (lift (getattr args ''fixed_camera'')) (\<lambda>fixed_camera.
     bnd (lift (getattr args ''debug'')) (\<lambda>debug.
     bnd (emit ReadDataset) (\<lambda>_.
     bnd (lift (load_dataset (listdir env) (truthy fixed_camera) (truthy debug)
                  (random_integers env))) (\<lambda>dataset.
     bnd (lift (getattr args ''fixed_camera'')) (\<lambda>fixed_camera.
     bnd (lift (getattr args ''g_latent'')) (\<lambda>g_latent.
     bnd (lift (if truthy fixed_camera then Inr g_latent else plus_three g_latent)) (\<lambda>input_dim.
     bnd (lift (getattr args ''latent_dim'')) (\<lambda>latent_dim.
     bnd (lift (getattr args ''lr'')) (\<lambda>_.
     bnd (lift (split_dataset (len dataset) (randperm env))) (\<lambda>(trainset, testset).
     bnd (lift (getattr args ''batch_size'')) (\<lambda>batch_size.
     bnd (lift (getattr args ''num_processes'')) (\<lambda>num_processes.
     bnd (lift (num_workers_of num_processes)) (\<lambda>_.
     bnd (lift (batch_size_of batch_size)) (\<lambda>b.
       ret (\<lparr>env_of = env, dataset_of = dataset, trainset_of = trainset,
             testset_of = testset, loader_batch_size = b, save_dir = save_path\<rparr>,
            Predictor env input_dim latent_dim))))))))))))))))))))))"

definition main :: "'p environment \<Rightarrow> namespace \<Rightarrow> unit prog" where
  "main env args =
     bnd (check_arguments args) (\<lambda>save_path.
     bnd (prepare env args save_path) (\<lambda>(S, \<theta>).
     bnd (lift (getattr args ''num_epoch'')) (\<lambda>num_epoch.
     bnd (lift (range_of num_epoch)) (\<lambda>epochs.
       epoch_loop S epochs (\<theta>, PInf)))))"

section \<open>Vocabulary of the specification\<close>

text \<open>
  The specification's invariant on an episode file: all six arrays share the sample
  dimension. The number of samples of a file is then the length of any of them.
\<close>

definition sample_count :: "episode \<Rightarrow> nat" where
  "sample_count f = length (samples (latent_array f))"

definition aligned :: "episode \<Rightarrow> bool" where
  "aligned f \<longleftrightarrow>
     length (distance_array f) = sample_count f \<and>
     length (azimuth_array f) = sample_count f \<and>
     length (elevation_array f) = sample_count f \<and>
     length (index_array f) = sample_count f \<and>
     length (rows (target_array f)) = sample_count f"

text \<open>
  A file whose latent array can be sliced at time step 0: a three-dimensional array with
  at least one time step.
\<close>

definition sliceable :: "episode \<Rightarrow> bool" where
  "sliceable f \<longleftrightarrow> well_shaped3 (latent_array f) \<and> 0 < steps (latent_array f)"

text \<open>
  A directory the assembler can read: at least one file, every latent array sliceable,
  every target array two-dimensional, one width for the latents and one for the targets
  over all files, and at least one sample in all.
\<close>

definition readable :: "episode list \<Rightarrow> bool" where
  "readable fs \<longleftrightarrow>
     fs \<noteq> [] \<and> list_all sliceable fs \<and>
     list_all (\<lambda>f. width3 (latent_array f) = width3 (latent_array (hd fs))) fs \<and>
     list_all (\<lambda>f. well_shaped2 (target_array f)) fs \<and>
     list_all (\<lambda>f. width2 (target_array f) = width2 (target_array (hd fs))) fs \<and>
     0 < sum_list (map sample_count fs)"

text \<open>
  A double: a value that double-precision rounding leaves as it is. A channel ready for
  scaling holds finite doubles only, its largest value differs from its least one, and
  their difference does not overflow in double precision.
\<close>

fun float64 :: "fp \<Rightarrow> bool" where
  "float64 (Fin r) = (round64 r = Fin r)"
| "float64 x = True"

fun finite_fp :: "fp \<Rightarrow> bool" where
  "finite_fp (Fin r) = True"
| "finite_fp x = False"

fun the_real :: "fp \<Rightarrow> real" where
  "the_real (Fin r) = r"
| "the_real x = 0"

definition lowest :: "fp list \<Rightarrow> fp" where
  "lowest x = Fin (Min (set (map the_real x)))"

definition highest :: "fp list \<Rightarrow> fp" where
  "highest x = Fin (Max (set (map the_real x)))"

definition scalable :: "fp list \<Rightarrow> bool" where
  "scalable x \<longleftrightarrow>
     list_all (\<lambda>u. finite_fp u \<and> float64 u) x \<and> highest x \<noteq> lowest x \<and>
     finite_fp (fp_sub round64 (highest x) (lowest x))"

text \<open>
  Min-max scaling in the specification's words: \<open>(x - min) / (max - min)\<close>, evaluated
  in double precision, with the minimum and the maximum of the whole channel.
  \<open>unit_scaled x y\<close> says that \<open>y\<close> is the channel \<open>x\<close> scaled that way, that every
  value of \<open>y\<close> is a number of the unit interval, that a minimum of \<open>x\<close> is sent to 0 and
  a maximum to 1.
\<close>

definition min_max_scaled :: "fp list \<Rightarrow> fp list" where
  "min_max_scaled x =
     map (\<lambda>u. fp_div round64 (fp_sub round64 u (lowest x))
                              (fp_sub round64 (highest x) (lowest x))) x"

definition unit_scaled :: "fp list \<Rightarrow> fp list \<Rightarrow> bool" where
  "unit_scaled x y \<longleftrightarrow>
     y = min_max_scaled x \<and>
     (\<forall>i < length x. \<exists>r. y ! i = Fin r \<and> 0 \<le> r \<and> r \<le> 1 \<and>
        (x ! i = lowest x \<longrightarrow> r = 0) \<and> (x ! i = highest x \<longrightarrow> r = 1))"

text \<open>
  The comparison the mask of the fixed-camera branch makes between the camera triplet
  (distance, azimuth, elevation) of a sample and that of the first sample: distance with
  distance, elevation with the first azimuth, azimuth with the first elevation.
\<close>

definition swapped_match :: "fp \<times> fp \<times> fp \<Rightarrow> fp \<times> fp \<times> fp \<Rightarrow> bool" where
  "swapped_match first s \<longleftrightarrow>
     np_eq (fst s) (fst first) \<and> np_eq (snd (snd s)) (fst (snd first)) \<and>
     np_eq (fst (snd s)) (snd (snd first))"

text \<open>
  An episode file with every time step after the first removed from its latents, and the
  slices at index 0 of the second axis of the latent arrays of a directory, in the order
  of the files and of their samples. The part of an input row before the three camera
  columns.
\<close>

definition drop_later_steps :: "episode \<Rightarrow> episode" where
  "drop_later_steps f =
     f\<lparr>latent_array :=
         \<lparr>steps = min (steps (latent_array f)) (Suc 0), width3 = width3 (latent_array f),
          samples = map (take (Suc 0)) (samples (latent_array f))\<rparr>\<rparr>"

definition first_step_rows :: "episode list \<Rightarrow> fp list list" where
  "first_step_rows fs = concat (map (\<lambda>f. map (\<lambda>s. s ! 0) (samples (latent_array f))) fs)"

definition latent_part :: "fp list \<Rightarrow> fp list" where
  "latent_part row = take (length row - 3) row"

text \<open>
  What a trace says about checkpoints: the mean validation losses in the order of the
  epochs, and the \<open>torch.save\<close> calls with their path and epoch.
\<close>

fun validated_loss :: "event \<Rightarrow> fp list" where
  "validated_loss (Validated k l) = [l]"
| "validated_loss _ = []"

fun saved_model :: "event \<Rightarrow> (string \<times> nat) list" where
  "saved_model (SavedModel path k) = [(path, k)]"
| "saved_model _ = []"

definition validation_losses :: "event list \<Rightarrow> fp list" where
  "validation_losses tr = concat (map validated_loss tr)"

definition saved_models :: "event list \<Rightarrow> (string \<times> nat) list" where
  "saved_models tr = concat (map saved_model tr)"

text \<open>
  The epochs, counted from 1, at which the specification has the checkpoint written: the
  loss of the epoch is strictly less than the initial best, plus infinity, and than the
  loss of every earlier epoch. A loss that is \<open>nan\<close> is no number: it is less than
  nothing, and an earlier epoch with such a loss sets no bound.
\<close>

definition improving_epochs :: "fp list \<Rightarrow> nat list" where
  "improving_epochs losses =
     [Suc k. k \<leftarrow> [0..<length losses],
        fp_less (losses ! k) PInf \<and>
        list_all (\<lambda>l. l = NaN \<or> fp_less (losses ! k) l) (take k losses)]"

text \<open>The best loss so far as the loop keeps it, starting from plus infinity.\<close>

definition best_of :: "fp list \<Rightarrow> fp" where
  "best_of losses = fold (\<lambda>l best. if fp_less l best then l else best) losses PInf"

text \<open>The one file the checkpoint goes to, for the \<open>policy_name\<close> of the arguments.\<close>

definition checkpoint_file :: "namespace \<Rightarrow> string" where
  "checkpoint_file args =
     (case getattr args ''policy_name'' of
        Inr (StrV name) \<Rightarrow> path_join (path_join ''../policy_log'' name) ''model.pth.tar''
      | _ \<Rightarrow> [])"

text \<open>
  \<open>model_index\<close> is there and strictly positive; the events that precede the assertion
  of line 89.
\<close>

definition model_index_positive :: "namespace \<Rightarrow> bool" where
  "model_index_positive args =
     (case getattr args ''model_index'' of
        Inr v \<Rightarrow> greater_than_zero v = Inr True
      | Inl _ \<Rightarrow> False)"

fun before_assertion :: "event \<Rightarrow> bool" where
  "before_assertion (SavedArguments _) = True"
| "before_assertion _ = False"

text \<open>
  The affine map \<open>(hi - lo) * x + lo\<close> applied to a joint angle before the kinematics
  call: the difference of the two constants is a double, the product and the sum are
  single-precision operations on an element of a tensor.
\<close>

definition unnormalized :: "fp \<Rightarrow> fp \<Rightarrow> fp \<Rightarrow> fp" where
  "unnormalized lo hi x =
     fp_add round32 (fp_mul round32 (to_float32 (fp_sub round64 hi lo)) x) (to_float32 lo)"

text \<open>
  The parser that \<open>parse_arguments(behavioural_vae=True, policy=True, gibson=True)\<close>
  builds, written out.
\<close>

definition entry_parser :: parser where
  "entry_parser =
     \<lparr>actions =
        [\<lparr>option_string = ''--vae-name'', dest = ''vae_name'', kind = StoreStr,
          default_value = StrV ''mse_fc_v1''\<rparr>,
         \<lparr>option_string = ''--latent-dim'', dest = ''latent_dim'', kind = StoreInt,
          default_value = IntV 5\<rparr>,
         \<lparr>option_string = ''--num_joints'', dest = ''num_joints'', kind = StoreInt,
          default_value = IntV 7\<rparr>,
         \<lparr>option_string = ''--num_actions'', dest = ''num_actions'', kind = StoreInt,
          default_value = IntV 24\<rparr>,
         \<lparr>option_string = ''--duration'', dest = ''duration'', kind = StoreFloat,
          default_value = FloatV 0.5\<rparr>,
         \<lparr>option_string = ''--conv'', dest = ''conv'', kind = StoreConst (BoolV True),
          default_value = BoolV False\<rparr>,
         \<lparr>option_string = ''--no-conv'', dest = ''conv'', kind = StoreConst (BoolV False),
          default_value = BoolV False\<rparr>,
         \<lparr>option_string = ''--conv-channel'', dest = ''conv_channel'', kind = StoreInt,
          default_value = IntV 2\<rparr>,
         \<lparr>option_string = ''--kernel-row'', dest = ''kernel_row'', kind = StoreInt,
          default_value = IntV 4\<rparr>,
         \<lparr>option_string = ''--folder-name'', dest = ''folder_name'', kind = StoreStr,
          default_value = StrV ''example''\<rparr>,
         \<lparr>option_string = ''--iterations'', dest = ''iterations'', kind = StoreInt,
          default_value = IntV 1000\<rparr>,
         \<lparr>option_string = ''--batch-size'', dest = ''batch_size'', kind = StoreInt,
          default_value = IntV 5\<rparr>,
         \<lparr>option_string = ''--lr'', dest = ''lr'', kind = StoreFloat,
          default_value = FloatV 0.001\<rparr>,
         \<lparr>option_string = ''--debug'', dest = ''debug'', kind = StoreConst (BoolV True),
          default_value = BoolV False\<rparr>,
         \<lparr>option_string = ''--random-goal'', dest = ''random_goal'',
          kind = StoreConst (BoolV True), default_value = BoolV False\<rparr>,
         \<lparr>option_string = ''--test'', dest = ''train'', kind = StoreConst (BoolV False),
          default_value = BoolV True\<rparr>,
         \<lparr>option_string = ''--g-name'', dest = ''g_name'', kind = StoreStr,
          default_value = StrV ''rgb_test''\<rparr>,
         \<lparr>option_string = ''--g-latent'', dest = ''g_latent'', kind = StoreInt,
          default_value = IntV 10\<rparr>],
      defaults =
        [(''train'', BoolV True), (''random_goal'', BoolV False), (''debug'', BoolV False),
         (''conv'', BoolV False)]\<rparr>"

section \<open>Example data\<close>

text \<open>
  Two files of two samples each, with two time steps and latents of width two;
  \<open>episode_a'\<close> has three time steps and differs from \<open>episode_a\<close> only after the first
  one.
\<close>

definition episode_a :: episode where
  "episode_a =
     \<lparr>latent_array = \<lparr>steps = 2, width3 = 2,
        samples = [[[Fin 10, Fin 11], [Fin 70, Fin 71]], [[Fin 20, Fin 21], [Fin 80, Fin 81]]]\<rparr>,
      distance_array = [Fin 1, Fin 2], azimuth_array = [Fin 0, Fin 10],
      elevation_array = [Fin 5, Fin 1], index_array = [Fin 0, Fin 1],
      target_array = \<lparr>width2 = 3, rows = [[Fin 1, Fin 1, Fin 1], [Fin 2, Fin 2, Fin 2]]\<rparr>\<rparr>"

definition episode_a' :: episode where
  "episode_a' =
     \<lparr>latent_array = \<lparr>steps = 3, width3 = 2,
        samples = [[[Fin 10, Fin 11], [Fin 0, Fin 0], [Fin 5, Fin 5]],
                   [[Fin 20, Fin 21], [NaN, PInf], [Fin 6, Fin 6]]]\<rparr>,
      distance_array = [Fin 1, Fin 2], azimuth_array = [Fin 0, Fin 10],
      elevation_array = [Fin 5, Fin 1], index_array = [Fin 0, Fin 1],
      target_array = \<lparr>width2 = 3, rows = [[Fin 1, Fin 1, Fin 1], [Fin 2, Fin 2, Fin 2]]\<rparr>\<rparr>"

definition episode_b :: episode where
  "episode_b =
     \<lparr>latent_array = \<lparr>steps = 2, width3 = 2,
        samples = [[[Fin 30, Fin 31], [Fin 90, Fin 91]], [[Fin 40, Fin 41], [Fin 60, Fin 61]]]\<rparr>,
      distance_array = [Fin 3, Fin 5], azimuth_array = [Fin 20, Fin 40],
      elevation_array = [Fin 3, Fin 2], index_array = [Fin 0, Fin 1],
      target_array = \<lparr>width2 = 3, rows = [[Fin 3, Fin 3, Fin 3], [Fin 4, Fin 4, Fin 4]]\<rparr>\<rparr>"

text \<open>
  One file of three samples whose camera channels are already in the unit interval: the
  first sample has the triplet (distance, azimuth, elevation) \<open>(0, 0, 1)\<close>, the second
  \<open>(0, 1, 0)\<close>, the third \<open>(1, 1, 0)\<close>.
\<close>

definition episode_c :: episode where
  "episode_c =
     \<lparr>latent_array = \<lparr>steps = 2, width3 = 2,
        samples = [[[Fin 10, Fin 11], [Fin 70, Fin 71]], [[Fin 20, Fin 21], [Fin 80, Fin 81]],
                   [[Fin 30, Fin 31], [Fin 90, Fin 91]]]\<rparr>,
      distance_array = [Fin 0, Fin 0, Fin 1], azimuth_array = [Fin 0, Fin 1, Fin 1],
      elevation_array = [Fin 1, Fin 0, Fin 0], index_array = [Fin 0, Fin 1, Fin 2],
      target_array = \<lparr>width2 = 3,
        rows = [[Fin 1, Fin 1, Fin 1], [Fin 2, Fin 2, Fin 2], [Fin 3, Fin 3, Fin 3]]\<rparr>\<rparr>"

text \<open>One file of two samples taken from the same camera position.\<close>

definition episode_d :: episode where
  "episode_d =
     \<lparr>latent_array = \<lparr>steps = 1, width3 = 2,
        samples = [[[Fin 10, Fin 11]], [[Fin 20, Fin 21]]]\<rparr>,
      distance_array = [Fin 1, Fin 1], azimuth_array = [Fin 10, Fin 10],
      elevation_array = [Fin 5, Fin 5], index_array = [Fin 0, Fin 1],
      target_array = \<lparr>width2 = 3, rows = [[Fin 1, Fin 1, Fin 1], [Fin 2, Fin 2, Fin 2]]\<rparr>\<rparr>"

text \<open>
  One file of three samples whose camera distances are the doubles \<open>-2 ^ 1023\<close>, \<open>0\<close>
  and \<open>2 ^ 1023\<close> (about \<open>9 * 10 ^ 307\<close>; the largest double is just below
  \<open>2 ^ 1024\<close>).
\<close>

definition episode_e :: episode where
  "episode_e =
     \<lparr>latent_array = \<lparr>steps = 1, width3 = 2,
        samples = [[[Fin 10, Fin 11]], [[Fin 20, Fin 21]], [[Fin 30, Fin 31]]]\<rparr>,
      distance_array = [Fin (- (2 ^ 1023)), Fin 0, Fin (2 ^ 1023)],
      azimuth_array = [Fin 0, Fin 1, Fin 2],
      elevation_array = [Fin 4, Fin 2, Fin 0], index_array = [Fin 0, Fin 1, Fin 2],
      target_array = \<lparr>width2 = 3,
        rows = [[Fin 1, Fin 1, Fin 1], [Fin 2, Fin 2, Fin 2], [Fin 3, Fin 3, Fin 3]]\<rparr>\<rparr>"

text \<open>
  A small environment for a given loss function. The predictor's parameter counts the
  optimiser steps, the decoder turns it into a trajectory of one joint whose last value is
  that count, the angles are mapped from \<open>[0, 1]\<close> to \<open>[-1, 1]\<close> and the kinematics
  is the identity. The mean of the losses of a single batch is the loss of that batch.
  With the four samples of \<open>episode_a\<close> and \<open>episode_b\<close> and a batch size of 5 an
  epoch has one training batch and one validation batch.
\<close>

definition example_env_with :: "(fp list list \<Rightarrow> fp list list \<Rightarrow> fp) \<Rightarrow> nat environment" where
  "example_env_with loss =
     \<lparr>MIN_ANGLE = Fin (- 1), MAX_ANGLE = Fin 1,
      Predictor = (\<lambda>input_dim latent_dim. 0),
      policy = (\<lambda>\<theta> latent_1. [[Fin (real \<theta>)]]),
      traj_decoder = (\<lambda>latent_2. latent_2),
      to_trajectory = (\<lambda>z. map (map (\<lambda>v. [Fin 0, v])) z),
      end_effector_pose = (\<lambda>pose. pose),
      mse_loss = loss,
      np_mean = (\<lambda>losses. case losses of [l] \<Rightarrow> l | _ \<Rightarrow> NaN),
      optimizer_step = (\<lambda>\<theta> latent_1 target_pose. Suc \<theta>),
      listdir = [episode_a, episode_b],
      random_integers = [],
      randperm = [2, 0, 3, 1],
      shuffled = (\<lambda>epoch indices. rev indices)\<rparr>"

text \<open>
  Two loss functions. The first reads 5, 3, 4, 2 off the poses 1, 3, 5 and anything else,
  the second \<open>nan\<close>, 3, plus infinity and 2.
\<close>

definition example_env :: "nat environment" where
  "example_env =
     example_env_with (\<lambda>end_pose target_pose.
       if end_pose = [[Fin 1]] then Fin 5 else if end_pose = [[Fin 3]] then Fin 3
       else if end_pose = [[Fin 5]] then Fin 4 else Fin 2)"

definition example_env_nan :: "nat environment" where
  "example_env_nan =
     example_env_with (\<lambda>end_pose target_pose.
       if end_pose = [[Fin 1]] then NaN else if end_pose = [[Fin 3]] then Fin 3
       else if end_pose = [[Fin 5]] then PInf else Fin 2)"

definition example_args :: namespace where
  "example_args =
     [(''policy_name'', StrV ''example''), (''model_index'', IntV 1),
      (''vae_name'', StrV ''mse_fc_v1''), (''latent_dim'', IntV 5), (''num_actions'', IntV 24),
      (''num_joints'', IntV 7), (''g_name'', StrV ''rgb_test''), (''fixed_camera'', BoolV False),
      (''debug'', BoolV False), (''g_latent'', IntV 2), (''lr'', FloatV 0.001),
      (''batch_size'', IntV 5), (''num_processes'', IntV 0), (''num_epoch'', IntV 4)]"

text \<open>The same arguments with the default \<open>model_index\<close> of the feed-forward group.\<close>

definition example_args_default_index :: namespace where
  "example_args_default_index = setattr ''model_index'' (IntV (- 1)) example_args"

definition example_context :: "nat environment \<Rightarrow> nat loop_context" where
  "example_context env =
     \<lparr>env_of = env,
      dataset_of =
        \<lparr>inputs = [[Fin 10, Fin 11, Fin 0, Fin 0, Fin 1],
                   [Fin 20, Fin 21, Fin (1 / 4), Fin (1 / 4), Fin 0],
                   [Fin 30, Fin 31, Fin (1 / 2), Fin (1 / 2), Fin (1 / 2)],
                   [Fin 40, Fin 41, Fin 1, Fin 1, Fin (1 / 4)]],
         targets = [[Fin 1, Fin 1, Fin 1], [Fin 2, Fin 2, Fin 2], [Fin 3, Fin 3, Fin 3],
                    [Fin 4, Fin 4, Fin 4]]\<rparr>,
      trainset_of = [2, 0], testset_of = [3, 1], loader_batch_size = 5,
      save_dir = ''../policy_log/example''\<rparr>"

section \<open>Properties of rounding\<close>

subsection \<open>The exponent and the rounding of a magnitude\<close>

text \<open>
  \<open>largest_exp\<close> returns the clamped exponent: it lies in the range, \<open>2 ^ e \<le> x\<close>
  unless it is the least exponent, and \<open>x < 2 ^ (e + 1)\<close> unless it is the largest.
\<close>

lemma largest_exp_spec:
  "lo \<le> hi \<Longrightarrow>
     lo \<le> largest_exp x lo hi \<and> largest_exp x lo hi \<le> hi \<and>
     (lo < largest_exp x lo hi \<or> 2 powi lo \<le> x \<longrightarrow> 2 powi (largest_exp x lo hi) \<le> x) \<and>
     (largest_exp x lo hi < hi \<or> x < 2 powi (hi + 1) \<longrightarrow> x < 2 powi (largest_exp x lo hi + 1))"
proof (induction x lo hi rule: largest_exp.induct)
  case (1 x lo hi)
  show ?case
  proof (cases "hi \<le> lo")
    case True
    with 1(3) have "hi = lo" by simp
    then show ?thesis by (simp add: largest_exp.simps[of x lo lo])
  next
    case False
    define mid where "mid = (lo + hi + 1) div 2"
    have m: "lo < mid" "mid \<le> hi" using False by (simp_all add: mid_def)
    show ?thesis
    proof (cases "2 powi mid \<le> x")
      case True
      have e: "largest_exp x lo hi = largest_exp x mid hi"
        using False True by (subst largest_exp.simps) (simp add: mid_def)
      from 1(1)[OF False True[unfolded mid_def], folded mid_def] m
      show ?thesis using True unfolding e by auto
    next
      case lt: False
      have e: "largest_exp x lo hi = largest_exp x lo (mid - 1)"
        using False lt by (subst largest_exp.simps) (simp add: mid_def)
      have "lo \<le> mid - 1" using m by simp
      from 1(2)[OF False lt[unfolded mid_def], folded mid_def, OF this] m
      show ?thesis using lt unfolding e by auto
    qed
  qed
qed

lemma largest_exp_mono:
  assumes "lo \<le> hi" "x \<le> y"
  shows "largest_exp x lo hi \<le> largest_exp y lo hi"
proof (rule ccontr)
  assume "\<not> ?thesis"
  then have lt: "largest_exp y lo hi < largest_exp x lo hi" by simp
  note sx = largest_exp_spec[OF assms(1), of x] and sy = largest_exp_spec[OF assms(1), of y]
  have "2 powi (largest_exp x lo hi) \<le> x" using sx sy lt by auto
  moreover have "y < 2 powi (largest_exp y lo hi + 1)" using sx sy lt by auto
  moreover have "(2::real) powi (largest_exp y lo hi + 1) \<le> 2 powi (largest_exp x lo hi)"
    using lt by (intro power_int_increasing) simp_all
  ultimately show False using assms(2) by linarith
qed

lemma round_half_even_of_int [simp]: "round_half_even (of_int n) = n"
  by (simp add: round_half_even_def)

lemma round_half_even_bounds: "\<lfloor>y\<rfloor> \<le> round_half_even y" "round_half_even y \<le> \<lfloor>y\<rfloor> + 1"
  by (simp_all add: round_half_even_def)

lemma round_half_even_mono:
  assumes "s \<le> t"
  shows "round_half_even s \<le> round_half_even t"
proof (cases "\<lfloor>s\<rfloor> = \<lfloor>t\<rfloor>")
  case True
  with assms show ?thesis by (auto simp: round_half_even_def)
next
  case False
  with assms have "\<lfloor>s\<rfloor> < \<lfloor>t\<rfloor>" by (simp add: floor_mono le_neq_trans)
  then have "round_half_even s \<le> \<lfloor>t\<rfloor>" using round_half_even_bounds(2)[of s] by linarith
  then show ?thesis using round_half_even_bounds(1)[of t] by linarith
qed

lemma round_half_even_ge: "of_int n \<le> y \<Longrightarrow> n \<le> round_half_even y"
  using round_half_even_mono[of "of_int n" y] by simp

lemma round_half_even_le: "y \<le> of_int n \<Longrightarrow> round_half_even y \<le> n"
  using round_half_even_mono[of y "of_int n"] by simp

lemma ulp_pos [simp]: "0 < ulp p emin emax x"
  by (simp add: ulp_def)

lemma ulp_nonneg [simp]: "0 \<le> ulp p emin emax x"
  by (simp add: ulp_def)

lemma ulp_neq_0 [simp]: "ulp p emin emax x \<noteq> 0"
  by (simp add: ulp_def)

lemma powi_diff_nat:
  assumes "j \<le> i"
  shows "(2::real) powi i = of_int (2 ^ nat (i - j)) * 2 powi j"
proof -
  have "(2::real) powi i = 2 powi ((i - j) + j)" by simp
  also have "\<dots> = 2 powi (i - j) * 2 powi j" by (subst power_int_add) simp_all
  also have "(2::real) powi (i - j) = 2 ^ nat (i - j)" using assms by (simp add: power_int_def)
  finally show ?thesis by simp
qed

lemma round_mag_nonneg: "0 \<le> x \<Longrightarrow> 0 \<le> round_mag p emin emax x"
proof -
  assume "0 \<le> x"
  then have "0 \<le> x / ulp p emin emax x" by simp
  then have "0 \<le> round_half_even (x / ulp p emin emax x)"
    using round_half_even_ge[of 0] by simp
  then show ?thesis by (simp add: round_mag_def)
qed

lemma round_mag_upper:
  assumes "x < 2 powi (largest_exp x emin emax + 1)"
  shows "round_mag p emin emax x \<le> 2 powi (largest_exp x emin emax + 1)"
proof -
  let ?E = "largest_exp x emin emax" and ?u = "ulp p emin emax x"
  have u: "(2::real) powi (?E + 1) = of_int (2 ^ p) * ?u"
    using powi_diff_nat[of "?E - int p + 1" "?E + 1"] by (simp add: ulp_def)
  have "x / ?u \<le> of_int (2 ^ p)"
    using assms unfolding u by (simp add: pos_divide_le_eq)
  then have "round_half_even (x / ?u) \<le> 2 ^ p" by (rule round_half_even_le)
  then have "of_int (round_half_even (x / ?u)) \<le> (of_int (2 ^ p) :: real)"
    by (simp only: of_int_le_iff)
  then have "of_int (round_half_even (x / ?u)) * ?u \<le> of_int (2 ^ p) * ?u"
    by (rule mult_right_mono) simp
  then show ?thesis unfolding u round_mag_def .
qed

lemma round_mag_lower:
  assumes "1 \<le> p" "2 powi (largest_exp x emin emax) \<le> x"
  shows "2 powi (largest_exp x emin emax) \<le> round_mag p emin emax x"
proof -
  let ?E = "largest_exp x emin emax" and ?u = "ulp p emin emax x"
  have u: "(2::real) powi ?E = of_int (2 ^ (p - 1)) * ?u"
    using powi_diff_nat[of "?E - int p + 1" "?E"] assms(1)
    by (simp add: ulp_def nat_diff_distrib' of_nat_diff)
  have "of_int (2 ^ (p - 1)) \<le> x / ?u"
    using assms(2) unfolding u by (simp add: pos_le_divide_eq)
  then have "2 ^ (p - 1) \<le> round_half_even (x / ?u)" by (rule round_half_even_ge)
  then have "(of_int (2 ^ (p - 1)) :: real) \<le> of_int (round_half_even (x / ?u))"
    by (simp only: of_int_le_iff)
  then have "of_int (2 ^ (p - 1)) * ?u \<le> of_int (round_half_even (x / ?u)) * ?u"
    by (rule mult_right_mono) simp
  then show ?thesis unfolding u round_mag_def .
qed

lemma round_mag_mono:
  assumes "emin \<le> emax" "1 \<le> p" "x \<le> y"
  shows "round_mag p emin emax x \<le> round_mag p emin emax y"
proof -
  let ?Ex = "largest_exp x emin emax" and ?Ey = "largest_exp y emin emax"
  note sx = largest_exp_spec[OF assms(1), of x] and sy = largest_exp_spec[OF assms(1), of y]
  have le: "?Ex \<le> ?Ey" using largest_exp_mono[OF assms(1,3)] .
  show ?thesis
  proof (cases "?Ex = ?Ey")
    case True
    then have u: "ulp p emin emax x = ulp p emin emax y" by (simp add: ulp_def)
    have "x / ulp p emin emax y \<le> y / ulp p emin emax y"
      using assms(3) by (simp add: divide_right_mono)
    then have "round_half_even (x / ulp p emin emax y) \<le> round_half_even (y / ulp p emin emax y)"
      by (rule round_half_even_mono)
    then have "(of_int (round_half_even (x / ulp p emin emax y)) :: real) \<le>
               of_int (round_half_even (y / ulp p emin emax y))"
      by (simp only: of_int_le_iff)
    then show ?thesis
      unfolding round_mag_def u by (rule mult_right_mono) simp
  next
    case False
    with le have lt: "?Ex < ?Ey" by simp
    have "x < 2 powi (?Ex + 1)" using sx sy lt by auto
    then have "round_mag p emin emax x \<le> 2 powi (?Ex + 1)" by (rule round_mag_upper)
    also have "\<dots> \<le> 2 powi ?Ey" using lt by (intro power_int_increasing) simp_all
    also have "\<dots> \<le> round_mag p emin emax y"
    proof (rule round_mag_lower[OF assms(2)])
      show "2 powi ?Ey \<le> y" using sx sy lt by auto
    qed
    finally show ?thesis .
  qed
qed

lemma round_mag_exact:
  assumes "emin \<le> emax" "0 \<le> n" "n < 2 ^ p" "emin - int p + 1 \<le> k"
  shows "round_mag p emin emax (of_int n * 2 powi k) = of_int n * 2 powi k"
proof -
  let ?x = "of_int n * 2 powi k :: real"
  let ?E = "largest_exp ?x emin emax"
  note s = largest_exp_spec[OF assms(1), of ?x]
  have k: "?E - int p + 1 \<le> k"
  proof (cases "?E = emin")
    case True
    with assms(4) show ?thesis by simp
  next
    case False
    with s have "2 powi ?E \<le> ?x" by auto
    also have "?x < of_int (2 ^ p) * 2 powi k"
      using assms(3) by (intro mult_strict_right_mono) simp_all
    also have "\<dots> = 2 powi (int p + k)"
      by (subst power_int_add) (simp_all add: power_int_def)
    finally have lt: "(2::real) powi ?E < 2 powi (int p + k)" .
    have "?E < int p + k"
    proof (rule ccontr)
      assume "\<not> ?E < int p + k"
      then have "(2::real) powi (int p + k) \<le> 2 powi ?E"
        by (intro power_int_increasing) simp_all
      with lt show False by simp
    qed
    then show ?thesis by simp
  qed
  have u: "(2::real) powi k = of_int (2 ^ nat (k - (?E - int p + 1))) * ulp p emin emax ?x"
    unfolding ulp_def by (rule powi_diff_nat[OF k])
  have "?x / ulp p emin emax ?x = of_int (n * 2 ^ nat (k - (?E - int p + 1)))"
    by (subst u) simp
  then have "round_half_even (?x / ulp p emin emax ?x) = n * 2 ^ nat (k - (?E - int p + 1))"
    by (simp only: round_half_even_of_int)
  then have "round_mag p emin emax ?x =
      of_int (n * 2 ^ nat (k - (?E - int p + 1))) * ulp p emin emax ?x"
    by (simp only: round_mag_def)
  also have "\<dots> = of_int n * (of_int (2 ^ nat (k - (?E - int p + 1))) * ulp p emin emax ?x)"
    by simp
  also have "\<dots> = ?x" by (simp only: u[symmetric])
  finally show ?thesis .
qed

lemma round_mag_grid:
  assumes "emin \<le> emax"
  shows "\<exists>z. round_mag p emin emax x = of_int z * 2 powi (emin - int p + 1)"
proof -
  let ?E = "largest_exp x emin emax"
  have "emin \<le> ?E" using largest_exp_spec[OF assms, of x] by simp
  then have "emin - int p + 1 \<le> ?E - int p + 1" by simp
  from powi_diff_nat[OF this]
  have "ulp p emin emax x = of_int (2 ^ nat (?E - emin)) * 2 powi (emin - int p + 1)"
    by (simp add: ulp_def)
  then have "round_mag p emin emax x =
      of_int (round_half_even (x / ulp p emin emax x) * 2 ^ nat (?E - emin)) * 2 powi (emin - int p + 1)"
    by (simp add: round_mag_def)
  then show ?thesis by blast
qed

lemma round_mag_overflow:
  assumes "emin \<le> emax" "1 \<le> p" "2 powi (emax + 1) \<le> x"
  shows "2 powi (emax + 1) \<le> round_mag p emin emax x"
proof -
  let ?E = "largest_exp x emin emax"
  note s = largest_exp_spec[OF assms(1), of x]
  have E: "?E = emax"
  proof (rule ccontr)
    assume "?E \<noteq> emax"
    with s have lt: "?E < emax" by simp
    with s have "x < 2 powi (?E + 1)" by simp
    also have "\<dots> \<le> 2 powi (emax + 1)" using lt by (intro power_int_increasing) simp_all
    finally show False using assms(3) by simp
  qed
  have u: "(2::real) powi (emax + 1) = of_int (2 ^ p) * ulp p emin emax x"
    using powi_diff_nat[of "emax - int p + 1" "emax + 1"] by (simp add: ulp_def E)
  have "of_int (2 ^ p) \<le> x / ulp p emin emax x"
    using assms(3) unfolding u by (simp add: pos_le_divide_eq)
  then have "2 ^ p \<le> round_half_even (x / ulp p emin emax x)" by (rule round_half_even_ge)
  then have "(of_int (2 ^ p) :: real) \<le> of_int (round_half_even (x / ulp p emin emax x))"
    by (simp only: of_int_le_iff)
  then have "of_int (2 ^ p) * ulp p emin emax x \<le>
             of_int (round_half_even (x / ulp p emin emax x)) * ulp p emin emax x"
    by (rule mult_right_mono) simp
  then show ?thesis unfolding u round_mag_def .
qed

subsection \<open>Rounding to a format\<close>

lemma two_powi_not_le_0 [simp]: "\<not> (2::real) powi k \<le> 0"
  by (simp add: not_le)

lemma round_mag_0 [simp]: "emin \<le> emax \<Longrightarrow> round_mag p emin emax 0 = 0"
  using round_mag_exact[of emin emax 0 p "emin - int p + 1"] by simp

lemma round_to_0 [simp]: "emin \<le> emax \<Longrightarrow> round_to p emin emax 0 = Fin 0"
  by (simp add: round_to_def not_le)

lemma round_to_neg:
  "emin \<le> emax \<Longrightarrow> round_to p emin emax (- x) = fp_neg (round_to p emin emax x)"
  by (cases "x = 0") (auto simp: round_to_def)

lemma round_to_exact:
  assumes "emin \<le> emax" "0 \<le> n" "n < 2 ^ p" "emin - int p + 1 \<le> k"
    and "of_int n * 2 powi k < (2::real) powi (emax + 1)"
  shows "round_to p emin emax (of_int n * 2 powi k) = Fin (of_int n * 2 powi k)"
proof -
  have nn: "(0::real) \<le> of_int n * 2 powi k" using assms(2) by simp
  have "round_mag p emin emax \<bar>of_int n * 2 powi k\<bar> = of_int n * 2 powi k"
    using round_mag_exact[OF assms(1-4)] nn by (simp only: abs_of_nonneg)
  then show ?thesis using assms(5) nn by (simp add: round_to_def not_le del: of_int_mult)
qed

lemma round_to_overflow:
  assumes "emin \<le> emax" "1 \<le> p" "2 powi (emax + 1) \<le> x"
  shows "round_to p emin emax x = PInf"
proof -
  have pos: "0 < x" using assms(3) by (rule less_le_trans[rotated]) simp
  then have "\<bar>x\<bar> = x" by simp
  with round_mag_overflow[OF assms] pos show ?thesis by (simp add: round_to_def)
qed

lemma round_to_mono_nonneg:
  assumes "emin \<le> emax" "1 \<le> p" "0 \<le> x" "x \<le> y" "round_to p emin emax y = Fin B"
  shows "\<exists>A. round_to p emin emax x = Fin A \<and> 0 \<le> A \<and> A \<le> B"
proof -
  have y: "0 \<le> y" using assms(3,4) by simp
  from assms(5) y have B: "B = round_mag p emin emax y" and
    fin: "\<not> 2 powi (emax + 1) \<le> round_mag p emin emax y"
    by (auto simp: round_to_def split: if_splits)
  have le: "round_mag p emin emax x \<le> round_mag p emin emax y"
    by (rule round_mag_mono[OF assms(1,2,4)])
  with fin have "\<not> 2 powi (emax + 1) \<le> round_mag p emin emax x" by simp
  then have "round_to p emin emax x = Fin (round_mag p emin emax x)"
    using assms(3) by (simp add: round_to_def)
  with le B round_mag_nonneg[OF assms(3), of p emin emax] show ?thesis by simp
qed

lemma round_to_grid:
  assumes "emin \<le> emax" "round_to p emin emax r = Fin r"
  shows "\<exists>z. r = of_int z * 2 powi (emin - int p + 1)"
proof -
  obtain z where z: "round_mag p emin emax \<bar>r\<bar> = of_int z * 2 powi (emin - int p + 1)"
    using round_mag_grid[OF assms(1)] by blast
  from assms(2) have "r = round_mag p emin emax \<bar>r\<bar> \<or> r = - round_mag p emin emax \<bar>r\<bar>"
    by (auto simp: round_to_def split: if_splits)
  then show ?thesis
  proof
    assume "r = round_mag p emin emax \<bar>r\<bar>"
    with z show ?thesis by metis
  next
    assume "r = - round_mag p emin emax \<bar>r\<bar>"
    with z have "r = of_int (- z) * 2 powi (emin - int p + 1)" by simp
    then show ?thesis by blast
  qed
qed

lemma round_to_difference:
  assumes "emin \<le> emax" "1 \<le> p"
    and "round_to p emin emax a = Fin a" "round_to p emin emax b = Fin b" "a < b"
    and "round_to p emin emax (b - a) = Fin B"
  shows "0 < B"
proof -
  let ?q = "(2::real) powi (emin - int p + 1)"
  obtain za where za: "a = of_int za * ?q" using round_to_grid[OF assms(1,3)] by blast
  obtain zb where zb: "b = of_int zb * ?q" using round_to_grid[OF assms(1,4)] by blast
  have q: "0 < ?q" by simp
  from assms(5) have "of_int za * ?q < of_int zb * ?q" by (simp only: za zb)
  then have "za < zb" using q by (simp only: mult_less_cancel_right_pos of_int_less_iff)
  then have "1 \<le> zb - za" by simp
  then have "(1::real) \<le> of_int (zb - za)" by (simp only: of_int_1_le_iff)
  then have "1 * ?q \<le> of_int (zb - za) * ?q" by (rule mult_right_mono) simp
  also have "\<dots> = b - a" by (simp add: za zb algebra_simps)
  finally have le: "?q \<le> b - a" by simp
  have "(1::int) < 2 ^ p" using assms(2) by (simp add: one_less_power)
  from round_mag_exact[OF assms(1) _ this, of "emin - int p + 1"]
  have ex: "round_mag p emin emax ?q = ?q" by simp
  have pos: "0 \<le> b - a" using assms(5) by simp
  from assms(6) pos have "B = round_mag p emin emax (b - a)"
    by (auto simp: round_to_def split: if_splits)
  moreover have "?q \<le> round_mag p emin emax (b - a)"
    using round_mag_mono[OF assms(1,2) le] by (simp only: ex)
  ultimately show ?thesis using q by (simp only: less_le_trans[OF q])
qed

subsection \<open>Double and single precision\<close>

text \<open>
  Zero, the integers below \<open>2 ^ 53\<close> (\<open>2 ^ 24\<close> in single precision) and the dyadic
  fractions of the examples are representable; rounding is monotone; the difference of
  two distinct doubles does not round to zero; a result of \<open>2 ^ 1024\<close> or more overflows.
\<close>

lemma round64_0 [simp]: "round64 0 = Fin 0"
  by (simp add: round64_def)

lemma round32_0 [simp]: "round32 0 = Fin 0"
  by (simp add: round32_def)

lemma round64_exact:
  assumes "0 \<le> n" "n < 2 ^ 53" "- 1074 \<le> k" "of_int n * 2 powi k < (2::real) powi 1024"
  shows "round64 (of_int n * 2 powi k) = Fin (of_int n * 2 powi k)"
  unfolding round64_def using assms by (intro round_to_exact) simp_all

lemma round32_exact:
  assumes "0 \<le> n" "n < 2 ^ 24" "- 149 \<le> k" "of_int n * 2 powi k < (2::real) powi 128"
  shows "round32 (of_int n * 2 powi k) = Fin (of_int n * 2 powi k)"
  unfolding round32_def using assms by (intro round_to_exact) simp_all

lemma round64_neg: "round64 (- x) = fp_neg (round64 x)"
  by (simp add: round64_def round_to_neg)

lemma round32_neg: "round32 (- x) = fp_neg (round32 x)"
  by (simp add: round32_def round_to_neg)

lemma round64_nat:
  assumes "n < 2 ^ 53"
  shows "round64 (of_nat n) = Fin (of_nat n)"
proof -
  have "real n < 2 ^ 53" using assms by (metis of_nat_less_iff of_nat_numeral of_nat_power)
  also have "(2::real) ^ 53 \<le> 2 powi 1024"
    using power_int_increasing[of 53 1024 "2::real"] by simp
  finally have "real_of_int (int n) * 2 powi 0 < 2 powi 1024" by simp
  from round64_exact[OF _ _ _ this] assms show ?thesis by simp
qed

lemma round32_nat:
  assumes "n < 2 ^ 24"
  shows "round32 (of_nat n) = Fin (of_nat n)"
proof -
  have "real n < 2 ^ 24" using assms by (metis of_nat_less_iff of_nat_numeral of_nat_power)
  also have "(2::real) ^ 24 \<le> 2 powi 128"
    using power_int_increasing[of 24 128 "2::real"] by simp
  finally have "real_of_int (int n) * 2 powi 0 < 2 powi 128" by simp
  from round32_exact[OF _ _ _ this] assms show ?thesis by simp
qed

lemma round64_numeral [simp]:
  "numeral w < (9007199254740992::nat) \<Longrightarrow> round64 (numeral w) = Fin (numeral w)"
  using round64_nat[of "numeral w"] by simp

lemma round32_numeral [simp]:
  "numeral w < (16777216::nat) \<Longrightarrow> round32 (numeral w) = Fin (numeral w)"
  using round32_nat[of "numeral w"] by simp

lemma round64_neg_numeral [simp]:
  "numeral w < (9007199254740992::nat) \<Longrightarrow> round64 (- numeral w) = Fin (- numeral w)"
  by (simp add: round64_neg)

lemma round32_neg_numeral [simp]:
  "numeral w < (16777216::nat) \<Longrightarrow> round32 (- numeral w) = Fin (- numeral w)"
  by (simp add: round32_neg)

lemma round64_1 [simp]: "round64 1 = Fin 1"
  using round64_nat[of 1] by simp

lemma round32_1 [simp]: "round32 1 = Fin 1"
  using round32_nat[of 1] by simp

lemma round64_neg_1 [simp]: "round64 (- 1) = Fin (- 1)"
  by (simp add: round64_neg)

lemma round32_neg_1 [simp]: "round32 (- 1) = Fin (- 1)"
  by (simp add: round32_neg)

lemma round64_fractions [simp]:
  "round64 (1 / 2) = Fin (1 / 2)" "round64 (1 / 4) = Fin (1 / 4)" "round64 (3 / 4) = Fin (3 / 4)"
  using round64_exact[of 1 "- 1"] round64_exact[of 1 "- 2"] round64_exact[of 3 "- 2"]
  by (simp_all add: power_int_minus field_simps)

lemma round32_fractions [simp]:
  "round32 (1 / 2) = Fin (1 / 2)" "round32 (1 / 4) = Fin (1 / 4)" "round32 (3 / 4) = Fin (3 / 4)"
  using round32_exact[of 1 "- 1"] round32_exact[of 1 "- 2"] round32_exact[of 3 "- 2"]
  by (simp_all add: power_int_minus field_simps)

lemma round64_mono_nonneg:
  "0 \<le> x \<Longrightarrow> x \<le> y \<Longrightarrow> round64 y = Fin B \<Longrightarrow> \<exists>A. round64 x = Fin A \<and> 0 \<le> A \<and> A \<le> B"
  unfolding round64_def by (rule round_to_mono_nonneg) simp_all

lemma round32_mono_nonneg:
  "0 \<le> x \<Longrightarrow> x \<le> y \<Longrightarrow> round32 y = Fin B \<Longrightarrow> \<exists>A. round32 x = Fin A \<and> 0 \<le> A \<and> A \<le> B"
  unfolding round32_def by (rule round_to_mono_nonneg) simp_all

lemma round64_unit: "0 \<le> t \<Longrightarrow> t \<le> 1 \<Longrightarrow> \<exists>r. round64 t = Fin r \<and> 0 \<le> r \<and> r \<le> 1"
  using round64_mono_nonneg[of t 1 1] by simp

lemma round64_difference:
  "round64 a = Fin a \<Longrightarrow> round64 b = Fin b \<Longrightarrow> a < b \<Longrightarrow> round64 (b - a) = Fin B \<Longrightarrow> 0 < B"
  unfolding round64_def by (rule round_to_difference[of "- 1022" 1023 53 a b]) simp_all

lemma round64_overflow: "2 ^ 1024 \<le> x \<Longrightarrow> round64 x = PInf"
  unfolding round64_def by (rule round_to_overflow) simp_all

lemma round64_pow2:
  assumes "k \<le> 1023"
  shows "round64 (2 ^ k) = Fin (2 ^ k)"
proof -
  have "(2::real) powi (int k) < 2 powi 1024"
    using assms by (intro power_int_strict_increasing) simp_all
  then have "real_of_int 1 * 2 powi (int k) < 2 powi 1024" by simp
  from round64_exact[OF _ _ _ this] show ?thesis by simp
qed

section \<open>Properties of the assembler\<close>

lemma and_then_Inr [simp]: "and_then (Inr x) f = f x"
  by (simp add: and_then_def)

lemma and_then_Inl [simp]: "and_then (Inl e) f = Inl e"
  by (simp add: and_then_def)

lemma and_then_eq_Inr:
  "and_then m f = Inr y \<longleftrightarrow> (\<exists>x. m = Inr x \<and> f x = Inr y)"
  by (cases m) simp_all

subsection \<open>Reading and concatenating the files\<close>

lemma read_files_eq:
  "read_files fs acc =
     (if list_all sliceable fs
      then Inr \<lparr>latents_pk = latents_pk acc @
                  map (\<lambda>f. \<lparr>width2 = width3 (latent_array f),
                             rows = map hd (samples (latent_array f))\<rparr>) fs,
                camera_distances_pk = camera_distances_pk acc @ map distance_array fs,
                azimuths_pk = azimuths_pk acc @ map azimuth_array fs,
                elevations_pk = elevations_pk acc @ map elevation_array fs,
                target_coords_pk = target_coords_pk acc @ map target_array fs\<rparr>
      else Inl IndexError)"
  by (induction fs arbitrary: acc) (simp_all add: first_time_step_def sliceable_def)

lemma sliceable_first_slice:
  assumes "sliceable f"
  shows "well_shaped2 \<lparr>width2 = width3 (latent_array f), rows = map hd (samples (latent_array f))\<rparr>"
proof -
  have "length (hd s) = width3 (latent_array f)" if "s \<in> set (samples (latent_array f))" for s
  proof -
    from assms that have l: "length s = steps (latent_array f)"
      and w: "\<forall>r \<in> set s. length r = width3 (latent_array f)"
      and p: "0 < steps (latent_array f)"
      by (auto simp: sliceable_def well_shaped3_def list_all_iff)
    from l p have "s \<noteq> []" by auto
    then have "hd s \<in> set s" by simp
    with w show ?thesis by blast
  qed
  then show ?thesis by (simp add: well_shaped2_def list_all_iff)
qed

lemma np_concatenate_rows_latents:
  assumes "fs \<noteq> []" "list_all sliceable fs"
  shows "np_concatenate_rows
           (map (\<lambda>f. \<lparr>width2 = width3 (latent_array f),
                        rows = map hd (samples (latent_array f))\<rparr>) fs) =
         (if list_all (\<lambda>f. width3 (latent_array f) = width3 (latent_array (hd fs))) fs
          then Inr (concat (map (\<lambda>f. map hd (samples (latent_array f))) fs))
          else Inl ValueError)"
proof -
  define g :: "episode \<Rightarrow> array2" where
    "g = (\<lambda>f. \<lparr>width2 = width3 (latent_array f), rows = map hd (samples (latent_array f))\<rparr>)"
  have ne: "map g fs \<noteq> []" using assms(1) by simp
  have w: "width2 (g f) = width3 (latent_array f)" for f by (simp add: g_def)
  have r: "rows (g f) = map hd (samples (latent_array f))" for f by (simp add: g_def)
  have h: "hd (map g fs) = g (hd fs)" using assms(1) by (rule hd_map)
  have ws: "well_shaped2 (g f)" if "f \<in> set fs" for f
    using sliceable_first_slice[of f] assms(2) that by (simp add: g_def list_all_iff)
  have "list_all (\<lambda>a. well_shaped2 a \<and> width2 a = width2 (hd (map g fs))) (map g fs) \<longleftrightarrow>
        list_all (\<lambda>f. width3 (latent_array f) = width3 (latent_array (hd fs))) fs"
    using ws by (simp add: list_all_iff h w)
  moreover have "concat (map rows (map g fs)) = concat (map (\<lambda>f. map hd (samples (latent_array f))) fs)"
    by (simp add: comp_def r)
  ultimately have "np_concatenate_rows (map g fs) =
         (if list_all (\<lambda>f. width3 (latent_array f) = width3 (latent_array (hd fs))) fs
          then Inr (concat (map (\<lambda>f. map hd (samples (latent_array f))) fs))
          else Inl ValueError)"
    using ne by (simp only: np_concatenate_rows_def if_False)
  then show ?thesis by (simp only: g_def)
qed

lemma np_concatenate_rows_targets:
  assumes "fs \<noteq> []"
  shows "np_concatenate_rows (map target_array fs) =
         (if list_all (\<lambda>f. well_shaped2 (target_array f)) fs \<and>
             list_all (\<lambda>f. width2 (target_array f) = width2 (target_array (hd fs))) fs
          then Inr (concat (map (\<lambda>f. rows (target_array f)) fs))
          else Inl ValueError)"
proof -
  have ne: "map target_array fs \<noteq> []" using assms by simp
  have h: "hd (map target_array fs) = target_array (hd fs)" using assms by (rule hd_map)
  have "list_all (\<lambda>a. well_shaped2 a \<and> width2 a = width2 (hd (map target_array fs)))
          (map target_array fs) \<longleftrightarrow>
        list_all (\<lambda>f. well_shaped2 (target_array f)) fs \<and>
        list_all (\<lambda>f. width2 (target_array f) = width2 (target_array (hd fs))) fs"
    by (auto simp: list_all_iff h)
  moreover have "concat (map rows (map target_array fs)) =
                 concat (map (\<lambda>f. rows (target_array f)) fs)"
    by (simp add: comp_def)
  ultimately show ?thesis
    using ne by (simp only: np_concatenate_rows_def if_False)
qed

lemma min_max_normalize_length: "min_max_normalize x = Inr y \<Longrightarrow> length y = length x"
  by (auto simp: min_max_normalize_def np_min_def np_max_def split: list.splits)

lemma min_max_normalize_Inr_iff: "(\<exists>y. min_max_normalize x = Inr y) \<longleftrightarrow> x \<noteq> []"
  by (auto simp: min_max_normalize_def np_min_def np_max_def split: list.splits)

lemma assemble_Inr:
  assumes "assemble fs = Inr A"
  shows "latents A = concat (map (\<lambda>f. map hd (samples (latent_array f))) fs)"
    and "target_coords A = concat (map (\<lambda>f. rows (target_array f)) fs)"
    and "min_max_normalize (concat (map distance_array fs)) = Inr (camera_distances A)"
    and "min_max_normalize (concat (map azimuth_array fs)) = Inr (azimuths A)"
    and "min_max_normalize (concat (map elevation_array fs)) = Inr (elevations A)"
    and "fs \<noteq> []"
    and "list_all sliceable fs"
proof -
  from assms have sl: "list_all sliceable fs"
    by (auto simp: assemble_def read_files_eq split: if_splits)
  from assms have ne: "fs \<noteq> []"
    by (auto simp: assemble_def read_files_eq no_packages_def np_concatenate_rows_def
        split: if_splits)
  note c = np_concatenate_rows_latents[OF ne sl] np_concatenate_rows_targets[OF ne]
  from assms
  show "latents A = concat (map (\<lambda>f. map hd (samples (latent_array f))) fs)"
    and "target_coords A = concat (map (\<lambda>f. rows (target_array f)) fs)"
    and "min_max_normalize (concat (map distance_array fs)) = Inr (camera_distances A)"
    and "min_max_normalize (concat (map azimuth_array fs)) = Inr (azimuths A)"
    and "min_max_normalize (concat (map elevation_array fs)) = Inr (elevations A)"
    by (auto simp: assemble_def read_files_eq sl no_packages_def c and_then_eq_Inr
        np_concatenate_def split: if_splits)
  show "fs \<noteq> []" by (rule ne)
  show "list_all sliceable fs" by (rule sl)
qed

lemma length_concat_aligned:
  assumes "list_all aligned fs"
  shows "length (concat (map (\<lambda>f. map hd (samples (latent_array f))) fs)) =
           sum_list (map sample_count fs)"
    and "length (concat (map distance_array fs)) = sum_list (map sample_count fs)"
    and "length (concat (map azimuth_array fs)) = sum_list (map sample_count fs)"
    and "length (concat (map elevation_array fs)) = sum_list (map sample_count fs)"
    and "length (concat (map (\<lambda>f. rows (target_array f)) fs)) = sum_list (map sample_count fs)"
  using assms
  by (induction fs) (simp_all add: aligned_def sample_count_def)

lemma nonempty_if_length: "length xs = n \<Longrightarrow> 0 < n \<Longrightarrow> xs \<noteq> []"
  by auto

lemma assemble_readable:
  assumes "list_all aligned fs" "readable fs"
  shows "\<exists>A. assemble fs = Inr A"
proof -
  from assms(2) have pos: "0 < sum_list (map sample_count fs)" by (simp add: readable_def)
  from assms(2) have ne: "fs \<noteq> []" and sl: "list_all sliceable fs" by (simp_all add: readable_def)
  note len = length_concat_aligned[OF assms(1)]
  have n: "concat (map distance_array fs) \<noteq> []" "concat (map azimuth_array fs) \<noteq> []"
    "concat (map elevation_array fs) \<noteq> []"
    by (rule nonempty_if_length[OF len(2) pos], rule nonempty_if_length[OF len(3) pos],
        rule nonempty_if_length[OF len(4) pos])
  then obtain nd na ne' where
    "min_max_normalize (concat (map distance_array fs)) = Inr nd"
    "min_max_normalize (concat (map azimuth_array fs)) = Inr na"
    "min_max_normalize (concat (map elevation_array fs)) = Inr ne'"
    using min_max_normalize_Inr_iff by metis
  then show ?thesis
    using assms(2) ne
    by (simp add: assemble_def read_files_eq no_packages_def np_concatenate_def
        np_concatenate_rows_latents[OF ne sl] np_concatenate_rows_targets[OF ne] readable_def)
qed

lemma assemble_lengths:
  assumes "list_all aligned fs" "assemble fs = Inr A"
  shows "length (latents A) = sum_list (map sample_count fs)"
    and "length (camera_distances A) = sum_list (map sample_count fs)"
    and "length (azimuths A) = sum_list (map sample_count fs)"
    and "length (elevations A) = sum_list (map sample_count fs)"
    and "length (target_coords A) = sum_list (map sample_count fs)"
  using assemble_Inr(1-5)[OF assms(2)] length_concat_aligned[OF assms(1)]
  by (simp_all add: min_max_normalize_length)

lemma load_dataset_variable:
  "load_dataset fs False False idx =
     and_then (assemble fs) (\<lambda>A.
     and_then (concatenate_columns (latents A) (camera_distances A) (azimuths A) (elevations A))
       (\<lambda>i. TensorDataset (Tensor i) (Tensor (target_coords A))))"
  by (cases "assemble fs") (simp_all add: load_dataset_def and_then_def split: sum.splits)

lemma Tensor_length [simp]: "length (Tensor a) = length a"
  by (simp add: Tensor_def)

subsection \<open>The time steps after the first\<close>

lemma first_time_step_drop:
  assumes "well_shaped3 a"
  shows "first_time_step \<lparr>steps = min (steps a) (Suc 0), width3 = width3 a,
                          samples = map (take (Suc 0)) (samples a)\<rparr> = first_time_step a"
proof (cases "0 < steps a")
  case False
  then show ?thesis by (simp add: first_time_step_def)
next
  case True
  have hd: "hd (take (Suc 0) s) = hd s" for s :: "fp list list" by (cases s) simp_all
  have "well_shaped3 \<lparr>steps = min (steps a) (Suc 0), width3 = width3 a,
                       samples = map (take (Suc 0)) (samples a)\<rparr>"
    using assms True
    by (auto simp: well_shaped3_def list_all_iff dest: in_set_takeD)
  with assms True show ?thesis by (simp add: first_time_step_def hd comp_def)
qed

lemma read_files_drop_later_steps:
  "list_all (\<lambda>f. well_shaped3 (latent_array f)) fs \<Longrightarrow>
     read_files (map drop_later_steps fs) acc = read_files fs acc"
  by (induction fs arbitrary: acc) (simp_all add: drop_later_steps_def first_time_step_drop)

lemma load_dataset_drop_later_steps:
  "list_all (\<lambda>f. well_shaped3 (latent_array f)) fs \<Longrightarrow>
     load_dataset (map drop_later_steps fs) c b idx = load_dataset fs c b idx"
  by (simp add: load_dataset_def assemble_def read_files_drop_later_steps)

lemma first_step_rows_eq:
  assumes "list_all sliceable fs"
  shows "first_step_rows fs = concat (map (\<lambda>f. map hd (samples (latent_array f))) fs)"
proof -
  have "map (\<lambda>s. s ! 0) (samples (latent_array f)) = map hd (samples (latent_array f))"
    if "f \<in> set fs" for f
  proof (rule map_cong[OF refl])
    fix s assume "s \<in> set (samples (latent_array f))"
    with assms that have "length s = steps (latent_array f)" "0 < steps (latent_array f)"
      by (auto simp: sliceable_def well_shaped3_def list_all_iff)
    then have "s \<noteq> []" by auto
    then show "s ! 0 = hd s" by (simp add: hd_conv_nth)
  qed
  then show ?thesis
    unfolding first_step_rows_def by (intro arg_cong[where f = concat] map_cong) simp_all
qed

subsection \<open>Minimum, maximum and scaling of a channel of finite numbers\<close>

lemma fold_min_Min: "fold min vs (v::real) = Min (set (v # vs))"
  by (simp only: Min.set_eq_fold)

lemma fold_max_Max: "fold max vs (v::real) = Max (set (v # vs))"
  by (simp only: Max.set_eq_fold)

lemma fold_fp_minimum:
  "fold (\<lambda>u m. fp_minimum m u) (map Fin vs) (Fin v) = Fin (fold min vs v)"
  by (induction vs arbitrary: v) (auto simp: min_def)

lemma fold_fp_maximum:
  "fold (\<lambda>u m. fp_maximum m u) (map Fin vs) (Fin v) = Fin (fold max vs v)"
  by (induction vs arbitrary: v) (auto simp: max_def)

lemma finite_fp_the_real: "finite_fp u \<Longrightarrow> u = Fin (the_real u)"
  by (cases u) simp_all

lemma finite_channel: "list_all finite_fp x \<Longrightarrow> x = map Fin (map the_real x)"
  by (induction x) (simp_all add: finite_fp_the_real[symmetric])

lemma np_min_finite:
  assumes "x \<noteq> []" "list_all finite_fp x"
  shows "np_min x = Inr (lowest x)"
proof -
  obtain v vs where x: "map the_real x = v # vs" using assms(1) by (cases x) auto
  have "x = map Fin (v # vs)" using finite_channel[OF assms(2)] by (simp only: x)
  then have "np_min x = Inr (Fin (fold min vs v))"
    by (simp add: np_min_def fold_fp_minimum)
  then show ?thesis by (simp only: lowest_def x fold_min_Min)
qed

lemma np_max_finite:
  assumes "x \<noteq> []" "list_all finite_fp x"
  shows "np_max x = Inr (highest x)"
proof -
  obtain v vs where x: "map the_real x = v # vs" using assms(1) by (cases x) auto
  have "x = map Fin (v # vs)" using finite_channel[OF assms(2)] by (simp only: x)
  then have "np_max x = Inr (Fin (fold max vs v))"
    by (simp add: np_max_def fold_fp_maximum)
  then show ?thesis by (simp only: highest_def x fold_max_Max)
qed

lemma min_max_normalize_finite:
  assumes "x \<noteq> []" "list_all finite_fp x"
  shows "min_max_normalize x = Inr (min_max_scaled x)"
  by (simp add: min_max_normalize_def np_min_finite[OF assms] np_max_finite[OF assms]
      min_max_scaled_def)

text \<open>
  On a channel of finite doubles whose extremes differ and whose spread does not overflow,
  every scaled value is a number between 0 and 1, with 0 at a minimum and 1 at a maximum.
\<close>

lemma scaled_value:
  assumes "round64 lo = Fin lo" "round64 hi = Fin hi" "lo < hi"
    and "round64 (hi - lo) = Fin B" "lo \<le> u" "u \<le> hi"
  shows "\<exists>r. fp_div round64 (fp_sub round64 (Fin u) (Fin lo)) (fp_sub round64 (Fin hi) (Fin lo)) = Fin r \<and>
             0 \<le> r \<and> r \<le> 1 \<and> (u = lo \<longrightarrow> r = 0) \<and> (u = hi \<longrightarrow> r = 1)"
proof -
  have B: "0 < B" using round64_difference[OF assms(1,2,3,4)] .
  obtain A where A: "round64 (u - lo) = Fin A" "0 \<le> A" "A \<le> B"
    using round64_mono_nonneg[of "u - lo" "hi - lo" B] assms(4,5,6) by auto
  have q: "0 \<le> A / B" "A / B \<le> 1" using A B by simp_all
  obtain r where r: "round64 (A / B) = Fin r" "0 \<le> r" "r \<le> 1"
    using round64_unit[OF q] by blast
  have d: "fp_div round64 (fp_sub round64 (Fin u) (Fin lo)) (fp_sub round64 (Fin hi) (Fin lo)) =
           round64 (A / B)"
    using B by (simp add: fp_sub_def A(1) assms(4))
  have "r = 0" if "u = lo"
  proof -
    from that A(1) have "A = 0" by simp
    with r(1) show ?thesis by simp
  qed
  moreover have "r = 1" if "u = hi"
  proof -
    from that A(1) assms(4) have "A = B" by simp
    with r(1) B show ?thesis by simp
  qed
  ultimately show ?thesis using d r by auto
qed

lemma scalable_unit_scaled:
  assumes "scalable x"
  shows "unit_scaled x (min_max_scaled x)"
proof -
  let ?R = "map the_real x"
  let ?lo = "Min (set ?R)" and ?hi = "Max (set ?R)"
  from assms have fin: "list_all finite_fp x" and dbl: "list_all float64 x"
    and ne: "?hi \<noteq> ?lo"
    and sp: "finite_fp (fp_sub round64 (Fin ?hi) (Fin ?lo))"
    by (simp_all add: scalable_def list_all_iff lowest_def highest_def)
  have rep: "round64 r = Fin r" if "r \<in> set ?R" for r
  proof -
    from that obtain u where u: "u \<in> set x" "r = the_real u" by auto
    with fin have "u = Fin r" by (simp add: list_all_iff finite_fp_the_real)
    with u(1) dbl show ?thesis by (auto simp: list_all_iff)
  qed
  have "\<exists>r. min_max_scaled x ! i = Fin r \<and> 0 \<le> r \<and> r \<le> 1 \<and>
          (x ! i = lowest x \<longrightarrow> r = 0) \<and> (x ! i = highest x \<longrightarrow> r = 1)"
    if i: "i < length x" for i
  proof -
    from i have mem: "x ! i \<in> set x" by simp
    define u where "u = the_real (x ! i)"
    have xi: "x ! i = Fin u" using mem fin by (simp add: u_def list_all_iff finite_fp_the_real)
    have uR: "u \<in> set ?R" using mem by (simp add: u_def)
    have nonempty: "x \<noteq> []" using i by auto
    have lo: "?lo \<le> u" and hi: "u \<le> ?hi" using uR by simp_all
    have lt: "?lo < ?hi" using lo hi ne by linarith
    have rl: "round64 ?lo = Fin ?lo" by (rule rep, rule Min_in) (simp_all add: nonempty)
    have rh: "round64 ?hi = Fin ?hi" by (rule rep, rule Max_in) (simp_all add: nonempty)
    obtain B where B: "round64 (?hi - ?lo) = Fin B"
      using sp by (cases "round64 (?hi - ?lo)") (simp_all add: fp_sub_def)
    from scaled_value[OF rl rh lt B lo hi] obtain r where
      "fp_div round64 (fp_sub round64 (Fin u) (Fin ?lo)) (fp_sub round64 (Fin ?hi) (Fin ?lo)) = Fin r"
      "0 \<le> r" "r \<le> 1" "u = ?lo \<longrightarrow> r = 0" "u = ?hi \<longrightarrow> r = 1" by blast
    then show ?thesis
      using i by (simp add: min_max_scaled_def lowest_def highest_def xi)
  qed
  then show ?thesis by (simp add: unit_scaled_def)
qed

lemma min_max_normalize_unit_scaled:
  assumes "min_max_normalize x = Inr y" "scalable x"
  shows "unit_scaled x y"
proof -
  from assms(1) have ne: "x \<noteq> []" using min_max_normalize_Inr_iff by blast
  from assms(2) have "list_all finite_fp x" by (simp add: scalable_def list_all_iff)
  from min_max_normalize_finite[OF ne this] assms(1) have "y = min_max_scaled x" by simp
  with scalable_unit_scaled[OF assms(2)] show ?thesis by simp
qed

subsection \<open>The assembler on the example files\<close>

lemmas assembler_defs =
  load_dataset_def assemble_def no_packages_def first_time_step_def well_shaped2_def
  well_shaped3_def np_concatenate_def np_concatenate_rows_def min_max_normalize_def np_min_def
  np_max_def fp_sub_def fixed_camera_select_def first_elem_def mask_times_def mask_index_def
  concatenate_columns_def debug_subsample_def take_indices_def TensorDataset_def Tensor_def

lemma assemble_episode_c:
  "assemble [episode_c] =
     Inr \<lparr>latents = [[Fin 10, Fin 11], [Fin 20, Fin 21], [Fin 30, Fin 31]],
          camera_distances = [Fin 0, Fin 0, Fin 1],
          azimuths = [Fin 0, Fin 1, Fin 1],
          elevations = [Fin 1, Fin 0, Fin 0],
          target_coords = [[Fin 1, Fin 1, Fin 1], [Fin 2, Fin 2, Fin 2], [Fin 3, Fin 3, Fin 3]]\<rparr>"
  by (simp add: episode_c_def assembler_defs)

lemma assemble_episodes_a_b:
  "assemble [episode_a, episode_b] =
     Inr \<lparr>latents = [[Fin 10, Fin 11], [Fin 20, Fin 21], [Fin 30, Fin 31], [Fin 40, Fin 41]],
          camera_distances = [Fin 0, Fin (1 / 4), Fin (1 / 2), Fin 1],
          azimuths = [Fin 0, Fin (1 / 4), Fin (1 / 2), Fin 1],
          elevations = [Fin 1, Fin 0, Fin (1 / 2), Fin (1 / 4)],
          target_coords = [[Fin 1, Fin 1, Fin 1], [Fin 2, Fin 2, Fin 2], [Fin 3, Fin 3, Fin 3],
                           [Fin 4, Fin 4, Fin 4]]\<rparr>"
  by (simp add: episode_a_def episode_b_def assembler_defs)

subsection \<open>What the branches of \<open>load_dataset\<close> compute\<close>

text \<open>
  In variable-camera mode a row is the latent followed by the three scaled values, in
  single precision.
\<close>

lemma load_dataset_variable_rows:
  assumes "load_dataset fs False False idx = Inr ds"
  shows "\<exists>A. assemble fs = Inr A \<and> targets ds = Tensor (target_coords A) \<and>
           inputs ds = Tensor (map (\<lambda>(r, x, y, z). r @ [x, y, z])
             (zip (latents A) (zip (camera_distances A) (zip (azimuths A) (elevations A)))))"
  using assms
  by (auto simp: load_dataset_variable and_then_eq_Inr concatenate_columns_def TensorDataset_def
      split: if_splits)

lemma latent_part_row [simp]: "latent_part (r @ [x, y, z]) = r"
  by (simp add: latent_part_def)

lemma latent_part_rows:
  assumes "length d = length l" "length a = length l" "length e = length l"
  shows "map latent_part (Tensor (map (\<lambda>(r, x, y, z). r @ [x, y, z]) (zip l (zip d (zip a e))))) =
         map (map to_float32) l"
proof -
  have "map latent_part (Tensor (map (\<lambda>(r, x, y, z). r @ [x, y, z]) (zip l (zip d (zip a e))))) =
        map (\<lambda>q. map to_float32 (fst q)) (zip l (zip d (zip a e)))"
    unfolding Tensor_def by (simp add: comp_def case_prod_beta)
  also have "\<dots> = map (map to_float32) (map fst (zip l (zip d (zip a e))))"
    by (simp add: comp_def)
  also have "map fst (zip l (zip d (zip a e))) = l"
    using assms by (intro map_fst_zip) simp
  finally show ?thesis .
qed

lemma load_dataset_variable_readable:
  assumes "list_all aligned fs" "readable fs"
  shows "\<exists>ds. load_dataset fs False False idx = Inr ds \<and>
           map latent_part (inputs ds) = map (map to_float32) (first_step_rows fs)"
proof -
  obtain A where A: "assemble fs = Inr A" using assemble_readable[OF assms] by blast
  note L = assemble_lengths[OF assms(1) A]
  let ?i = "map (\<lambda>(r, x, y, z). r @ [x, y, z])
              (zip (latents A) (zip (camera_distances A) (zip (azimuths A) (elevations A))))"
  have ld: "load_dataset fs False False idx =
            Inr \<lparr>inputs = Tensor ?i, targets = Tensor (target_coords A)\<rparr>"
    using L by (simp add: load_dataset_variable A concatenate_columns_def TensorDataset_def)
  have lp: "map latent_part (Tensor ?i) = map (map to_float32) (latents A)"
    using L by (intro latent_part_rows) simp_all
  have lat: "latents A = first_step_rows fs"
    using assemble_Inr(1,7)[OF A] by (simp add: first_step_rows_eq)
  show ?thesis using lp by (simp add: ld lat)
qed

text \<open>
  In fixed-camera mode, on arrays of one length, the rows kept are those whose triplet
  matches the first one in the swapped way.
\<close>

lemma mask_index_map:
  "length xs = length ys \<Longrightarrow>
     mask_index xs (map p ys) = Inr (map fst (filter (\<lambda>q. p (snd q)) (zip xs ys)))"
proof -
  assume l: "length xs = length ys"
  then have "map fst (filter snd (zip xs (map p ys))) = map fst (filter (\<lambda>q. p (snd q)) (zip xs ys))"
    by (induction xs ys rule: list_induct2) auto
  with l show ?thesis by (simp add: mask_index_def)
qed

lemma fixed_camera_select_aligned:
  assumes "first_elem (camera_distances A) = Inr d0" "first_elem (azimuths A) = Inr a0"
    "first_elem (elevations A) = Inr e0"
    and "length (camera_distances A) = n" "length (azimuths A) = n" "length (elevations A) = n"
    and "length (latents A) = n" "length (target_coords A) = n"
  shows "fixed_camera_select A =
     Inr (map fst (filter (\<lambda>q. swapped_match (d0, a0, e0) (snd q))
            (zip (latents A) (zip (camera_distances A) (zip (azimuths A) (elevations A))))),
          map fst (filter (\<lambda>q. swapped_match (d0, a0, e0) (snd q))
            (zip (target_coords A) (zip (camera_distances A) (zip (azimuths A) (elevations A))))))"
proof -
  let ?cam = "zip (camera_distances A) (zip (azimuths A) (elevations A))"
  note len = assms(4-6)
  have m1: "mask_times (map (\<lambda>x. np_eq x d0) (camera_distances A))
              (map (\<lambda>x. np_eq x a0) (elevations A)) =
            Inr (map (\<lambda>(x, y). np_eq x d0 \<and> np_eq y a0) (zip (camera_distances A) (elevations A)))"
    using len by (auto simp: mask_times_def zip_map_map)
  have m2: "mask_times (map (\<lambda>(x, y). np_eq x d0 \<and> np_eq y a0) (zip (camera_distances A) (elevations A)))
              (map (\<lambda>x. np_eq x e0) (azimuths A)) =
            Inr (map (swapped_match (d0, a0, e0)) ?cam)"
  proof -
    have "map (\<lambda>(x, y). x \<and> y)
            (zip (map (\<lambda>(x, y). np_eq x d0 \<and> np_eq y a0) (zip (camera_distances A) (elevations A)))
                 (map (\<lambda>x. np_eq x e0) (azimuths A))) =
          map (swapped_match (d0, a0, e0)) ?cam"
      using len by (intro nth_equalityI) (auto simp: swapped_match_def)
    then show ?thesis using len by (simp add: mask_times_def)
  qed
  have l1: "length (latents A) = length ?cam" "length (target_coords A) = length ?cam"
    using len assms(7,8) by simp_all
  show ?thesis
    unfolding fixed_camera_select_def
    by (simp add: assms(1-3) m1 m2 mask_index_map[OF l1(1)] mask_index_map[OF l1(2)])
qed

lemma length_filter_zip_snd:
  "length xs = length ys \<Longrightarrow>
     length (filter (\<lambda>q. P (snd q)) (zip xs ys)) = length (filter P ys)"
  by (induction xs ys rule: list_induct2) simp_all

lemma first_elem_nonempty: "xs \<noteq> [] \<Longrightarrow> first_elem xs = Inr (hd xs)"
  by (cases xs) (simp_all add: first_elem_def)

lemma load_dataset_fixed_readable:
  assumes "list_all aligned fs" "readable fs"
  shows "\<exists>ds. load_dataset fs True False idx = Inr ds \<and>
           set (inputs ds) \<subseteq> set (map (map to_float32) (first_step_rows fs))"
proof -
  obtain A where A: "assemble fs = Inr A" using assemble_readable[OF assms] by blast
  note L = assemble_lengths[OF assms(1) A]
  from assms(2) have pos: "0 < sum_list (map sample_count fs)" by (simp add: readable_def)
  have ne: "camera_distances A \<noteq> []" "azimuths A \<noteq> []" "elevations A \<noteq> []"
    by (rule nonempty_if_length[OF L(2) pos], rule nonempty_if_length[OF L(3) pos],
        rule nonempty_if_length[OF L(4) pos])
  let ?m = "\<lambda>q. swapped_match (hd (camera_distances A), hd (azimuths A), hd (elevations A)) (snd q)"
  let ?cam = "zip (camera_distances A) (zip (azimuths A) (elevations A))"
  note sel = fixed_camera_select_aligned[OF first_elem_nonempty[OF ne(1)]
      first_elem_nonempty[OF ne(2)] first_elem_nonempty[OF ne(3)] L(2) L(3) L(4) L(1) L(5)]
  have ld: "load_dataset fs True False idx =
            Inr \<lparr>inputs = Tensor (map fst (filter ?m (zip (latents A) ?cam))),
                 targets = Tensor (map fst (filter ?m (zip (target_coords A) ?cam)))\<rparr>"
  proof -
    have "length (filter ?m (zip (latents A) ?cam)) = length (filter ?m (zip (target_coords A) ?cam))"
      using L by (simp add: length_filter_zip_snd)
    then show ?thesis
      by (simp add: load_dataset_def A sel TensorDataset_def)
  qed
  have "set (map fst (filter ?m (zip (latents A) ?cam))) \<subseteq> set (latents A)"
    by (auto dest: set_zip_leftD)
  then have sub: "set (Tensor (map fst (filter ?m (zip (latents A) ?cam)))) \<subseteq>
                  set (map (map to_float32) (latents A))"
    unfolding Tensor_def by auto
  have lat: "latents A = first_step_rows fs"
    using assemble_Inr(1,7)[OF A] by (simp add: first_step_rows_eq)
  show ?thesis using sub by (simp add: ld lat)
qed

text \<open>
  When every sample has the same camera position each channel is constant, the scaled
  values are all \<open>nan\<close>, no comparison holds and the fixed-camera dataset is empty.
\<close>

lemma fixed_camera_constant_channels:
  "assemble [episode_d] =
     Inr \<lparr>latents = [[Fin 10, Fin 11], [Fin 20, Fin 21]], camera_distances = [NaN, NaN],
          azimuths = [NaN, NaN], elevations = [NaN, NaN],
          target_coords = [[Fin 1, Fin 1, Fin 1], [Fin 2, Fin 2, Fin 2]]\<rparr>"
  "load_dataset [episode_d] True False [] = Inr \<lparr>inputs = [], targets = []\<rparr>"
  by (simp_all add: episode_d_def assembler_defs)

text \<open>A draw that contains the number of rows cannot be used as an index.\<close>

lemma debug_subsample_upper_bound:
  assumes "length (fst p) \<in> set indices"
  shows "debug_subsample indices p = Inl IndexError"
proof -
  have "\<not> list_all (\<lambda>i. i < length (fst p)) indices"
    using assms by (auto simp: list_all_iff)
  then show ?thesis by (simp add: debug_subsample_def take_indices_def)
qed

subsection \<open>The claims on the assembler\<close>

text \<open>
  C1. The specification has \<open>load_dataset\<close> in fixed-camera mode return only samples
  whose (distance, azimuth, elevation) triplet equals the triplet of the first sample. The
  mask of the source compares the elevations with the first azimuth and the azimuths with the
  first elevation. On \<open>episode_c\<close> the normalised triplets are \<open>(0, 0, 1)\<close>, \<open>(0, 1, 0)\<close>
  and \<open>(1, 1, 0)\<close>: the dataset returned holds the second sample alone, whose triplet
  differs from the first one's, and the first sample itself is left out.
\<close>

theorem fixed_camera_mask_swaps_channels:
  "load_dataset [episode_c] True False [] =
     Inr \<lparr>inputs = [[Fin 20, Fin 21]], targets = [[Fin 2, Fin 2, Fin 2]]\<rparr>"
  by (simp add: episode_c_def assembler_defs)

text \<open>
  C2. In debug mode the ten indices are drawn from the closed range \<open>0 .. n\<close>, where \<open>n\<close>
  is the number of rows, so the index \<open>n\<close> can be drawn: for the three rows of
  \<open>episode_c\<close> the draw \<open>[3, 0, 0, 0, 0, 0, 0, 0, 0, 0]\<close> is in range and the subsampling
  raises IndexError instead of selecting ten samples.
\<close>

theorem debug_draw_out_of_bounds:
  "random_integers_range 3 10 [3, 0, 0, 0, 0, 0, 0, 0, 0, 0] \<and>
   load_dataset [episode_c] False True [3, 0, 0, 0, 0, 0, 0, 0, 0, 0] = Inl IndexError"
  by (simp add: episode_c_def assembler_defs random_integers_range_def)

text \<open>
  C6. The specification states the scaling for every channel whose maximum differs from
  its minimum. The three camera distances of \<open>episode_e\<close> are finite doubles with minimum
  \<open>-2 ^ 1023\<close> and maximum \<open>2 ^ 1023\<close>. Their difference \<open>max - min\<close> is \<open>2 ^ 1024\<close>,
  which overflows to infinity in double precision, as does \<open>x - min\<close> for the maximum:
  the scaled channel is \<open>0, 0, nan\<close>. The maximum is not sent to 1 and the middle value
  is not sent to one half.
\<close>

theorem normalization_overflows:
  "distance_array episode_e = [Fin (- (2 ^ 1023)), Fin 0, Fin (2 ^ 1023)] \<and>
   list_all float64 (distance_array episode_e) \<and>
   assemble [episode_e] =
     Inr \<lparr>latents = [[Fin 10, Fin 11], [Fin 20, Fin 21], [Fin 30, Fin 31]],
          camera_distances = [Fin 0, Fin 0, NaN],
          azimuths = [Fin 0, Fin (1 / 2), Fin 1],
          elevations = [Fin 1, Fin (1 / 2), Fin 0],
          target_coords = [[Fin 1, Fin 1, Fin 1], [Fin 2, Fin 2, Fin 2], [Fin 3, Fin 3, Fin 3]]\<rparr>"
proof -
  have d: "distance_array episode_e = [Fin (- (2 ^ 1023)), Fin 0, Fin (2 ^ 1023)]"
    by (simp add: episode_e_def)
  have f: "list_all float64 (distance_array episode_e)"
    using round64_pow2[of 1023] by (simp add: d round64_neg)
  have a: "assemble [episode_e] =
     Inr \<lparr>latents = [[Fin 10, Fin 11], [Fin 20, Fin 21], [Fin 30, Fin 31]],
          camera_distances = [Fin 0, Fin 0, NaN],
          azimuths = [Fin 0, Fin (1 / 2), Fin 1],
          elevations = [Fin 1, Fin (1 / 2), Fin 0],
          target_coords = [[Fin 1, Fin 1, Fin 1], [Fin 2, Fin 2, Fin 2], [Fin 3, Fin 3, Fin 3]]\<rparr>"
    using round64_pow2[of 1023]
    by (simp add: episode_e_def assembler_defs round64_overflow)
  from d f a show ?thesis by (intro conjI)
qed

text \<open>
  C6, amended. Whenever the files assemble and each camera channel of the concatenated
  set holds finite doubles only, has a maximum that differs from its minimum and a
  difference \<open>max - min\<close> that does not overflow, each of the three channels of the
  assembled arrays is the concatenation over all files scaled by the double-precision
  value of \<open>(x - min) / (max - min)\<close>, with the minimum and maximum taken over that whole
  concatenation; every value is a number of \<open>[0, 1]\<close>, the minimum is sent to 0 and the
  maximum to 1.
\<close>

theorem normalization_over_whole_set:
  assumes "assemble data_files = Inr A"
    and "d = concat (map distance_array data_files)"
    and "a = concat (map azimuth_array data_files)"
    and "e = concat (map elevation_array data_files)"
    and "scalable d" and "scalable a" and "scalable e"
  shows "unit_scaled d (camera_distances A) \<and> unit_scaled a (azimuths A) \<and>
         unit_scaled e (elevations A)"
  using assms assemble_Inr(3-5)[OF assms(1)]
  by (simp add: min_max_normalize_unit_scaled)

theorem normalization_over_whole_set_witness:
  "scalable [Fin 1, Fin 2, Fin 3, Fin 5] \<and> scalable [Fin 0, Fin 10, Fin 20, Fin 40] \<and>
   scalable [Fin 5, Fin 1, Fin 3, Fin 2] \<and>
   unit_scaled [Fin 1, Fin 2, Fin 3, Fin 5] [Fin 0, Fin (1 / 4), Fin (1 / 2), Fin 1] \<and>
   unit_scaled [Fin 0, Fin 10, Fin 20, Fin 40] [Fin 0, Fin (1 / 4), Fin (1 / 2), Fin 1] \<and>
   unit_scaled [Fin 5, Fin 1, Fin 3, Fin 2] [Fin 1, Fin 0, Fin (1 / 2), Fin (1 / 4)]"
proof -
  have s: "scalable [Fin 1, Fin 2, Fin 3, Fin 5]" "scalable [Fin 0, Fin 10, Fin 20, Fin 40]"
    "scalable [Fin 5, Fin 1, Fin 3, Fin 2]"
    by (simp_all add: scalable_def lowest_def highest_def fp_sub_def)
  from normalization_over_whole_set[OF assemble_episodes_a_b _ _ _ s] s show ?thesis
    by (simp add: episode_a_def episode_b_def)
qed

text \<open>
  C8. For files whose arrays are aligned, in variable-camera mode with debug off,
  \<open>load_dataset\<close> either returns a dataset whose length (and number of targets) is the sum
  of the per-file sample counts, or raises; and it raises only when the directory is not
  readable (no file, no sample, a latent array that cannot be sliced at time step 0, a
  target array that is not two-dimensional, or arrays of different widths).
\<close>

theorem assembled_length_is_sum:
  assumes "list_all aligned data_files"
  shows "case load_dataset data_files False False indices of
           Inr ds \<Rightarrow> len ds = sum_list (map sample_count data_files) \<and>
                     length (targets ds) = sum_list (map sample_count data_files)
         | Inl err \<Rightarrow> \<not> readable data_files"
proof (cases "assemble data_files")
  case (Inl err)
  then show ?thesis
    using assemble_readable[OF assms] by (auto simp: load_dataset_variable)
next
  case (Inr A)
  note L = assemble_lengths[OF assms Inr]
  show ?thesis
    using L by (simp add: load_dataset_variable Inr concatenate_columns_def TensorDataset_def len_def)
qed

theorem assembled_length_is_sum_witness:
  "list_all aligned [episode_a, episode_b] \<and> readable [episode_a, episode_b] \<and>
   (\<exists>ds. load_dataset [episode_a, episode_b] False False [] = Inr ds \<and> len ds = 4 \<and>
      length (targets ds) = 4)"
proof -
  have al: "list_all aligned [episode_a, episode_b]"
    by (simp add: aligned_def sample_count_def episode_a_def episode_b_def)
  have rd: "readable [episode_a, episode_b]"
    by (simp add: readable_def sliceable_def well_shaped3_def well_shaped2_def sample_count_def
        episode_a_def episode_b_def)
  have n: "sum_list (map sample_count [episode_a, episode_b]) = 4"
    by (simp add: sample_count_def episode_a_def episode_b_def)
  show ?thesis
    using assembled_length_is_sum[OF al, of "[]"] al rd n
    by (cases "load_dataset [episode_a, episode_b] False False []") simp_all
qed

text \<open>
  C9. Of the latent array of a file, \<open>load_dataset\<close> uses the slice at index 0 of the
  time axis and nothing else. Two directories of files with three-dimensional latent
  arrays that agree once every time step after the first is removed give the same
  result, in every mode, errors included. And the slice at index 0 is what reaches the
  dataset: on a readable directory of aligned files the call succeeds; in variable-camera
  mode the rows of the inputs, without their three camera columns, are the slices at
  index 0 of all samples in order, in single precision; in fixed-camera mode every row of
  the inputs is such a slice.
\<close>

theorem only_first_time_step_used:
  assumes "list_all (\<lambda>f. well_shaped3 (latent_array f)) data_files"
    and "list_all (\<lambda>f. well_shaped3 (latent_array f)) data_files'"
    and "map drop_later_steps data_files = map drop_later_steps data_files'"
  shows "load_dataset data_files fixed_camera debug indices =
         load_dataset data_files' fixed_camera debug indices \<and>
         (list_all aligned data_files \<and> readable data_files \<longrightarrow>
            (\<exists>ds. load_dataset data_files False False indices = Inr ds \<and>
               map latent_part (inputs ds) = map (map to_float32) (first_step_rows data_files)) \<and>
            (\<exists>ds. load_dataset data_files True False indices = Inr ds \<and>
               set (inputs ds) \<subseteq> set (map (map to_float32) (first_step_rows data_files))))"
proof -
  have "load_dataset data_files fixed_camera debug indices =
        load_dataset (map drop_later_steps data_files) fixed_camera debug indices"
    using load_dataset_drop_later_steps[OF assms(1)] by simp
  also have "\<dots> = load_dataset (map drop_later_steps data_files') fixed_camera debug indices"
    by (simp only: assms(3))
  also have "\<dots> = load_dataset data_files' fixed_camera debug indices"
    using load_dataset_drop_later_steps[OF assms(2)] by simp
  finally show ?thesis
    using load_dataset_variable_readable[of data_files indices]
      load_dataset_fixed_readable[of data_files indices]
    by blast
qed

theorem only_first_time_step_used_witness:
  "episode_a' \<noteq> episode_a \<and>
   list_all (\<lambda>f. well_shaped3 (latent_array f)) [episode_a', episode_b] \<and>
   list_all (\<lambda>f. well_shaped3 (latent_array f)) [episode_a, episode_b] \<and>
   list_all aligned [episode_a', episode_b] \<and> readable [episode_a', episode_b] \<and>
   load_dataset [episode_a', episode_b] False False [] =
   load_dataset [episode_a, episode_b] False False [] \<and>
   (\<exists>ds. load_dataset [episode_a', episode_b] False False [] = Inr ds \<and>
      map latent_part (inputs ds) =
        [[Fin 10, Fin 11], [Fin 20, Fin 21], [Fin 30, Fin 31], [Fin 40, Fin 41]])"
proof -
  have ne: "episode_a' \<noteq> episode_a"
    by (simp add: episode_a_def episode_a'_def)
  have w: "list_all (\<lambda>f. well_shaped3 (latent_array f)) [episode_a', episode_b]"
    "list_all (\<lambda>f. well_shaped3 (latent_array f)) [episode_a, episode_b]"
    by (simp_all add: well_shaped3_def episode_a_def episode_a'_def episode_b_def)
  have d: "map drop_later_steps [episode_a', episode_b] = map drop_later_steps [episode_a, episode_b]"
    by (simp add: drop_later_steps_def episode_a_def episode_a'_def)
  have al: "list_all aligned [episode_a', episode_b]"
    by (simp add: aligned_def sample_count_def episode_a'_def episode_b_def)
  have rd: "readable [episode_a', episode_b]"
    by (simp add: readable_def sliceable_def well_shaped3_def well_shaped2_def sample_count_def
        episode_a'_def episode_b_def)
  have r: "map (map to_float32) (first_step_rows [episode_a', episode_b]) =
           [[Fin 10, Fin 11], [Fin 20, Fin 21], [Fin 30, Fin 31], [Fin 40, Fin 41]]"
    by (simp add: first_step_rows_def episode_a'_def episode_b_def)
  note t = only_first_time_step_used[OF w d, of False False "[]"]
  have e: "load_dataset [episode_a', episode_b] False False [] =
           load_dataset [episode_a, episode_b] False False []"
    by (rule conjunct1[OF t])
  have "\<exists>ds. load_dataset [episode_a', episode_b] False False [] = Inr ds \<and>
          map latent_part (inputs ds) = map (map to_float32) (first_step_rows [episode_a', episode_b])"
    using conjunct2[OF t] al rd by blast
  then have p: "\<exists>ds. load_dataset [episode_a', episode_b] False False [] = Inr ds \<and>
      map latent_part (inputs ds) =
        [[Fin 10, Fin 11], [Fin 20, Fin 21], [Fin 30, Fin 31], [Fin 40, Fin 41]]"
    by (simp only: r)
  from ne w al rd e p show ?thesis by (intro conjI)
qed


section \<open>Properties of the argument parser and of the start of \<open>main\<close>\<close>

subsection \<open>Programs with a trace\<close>

lemma bnd_lift_Inl [simp]: "bnd (lift (Inl e)) f tr = (Inl e, tr)"
  by (simp add: bnd_def lift_def)

lemma bnd_lift_Inr [simp]: "bnd (lift (Inr x)) f tr = f x tr"
  by (simp add: bnd_def lift_def)

lemma bnd_emit [simp]: "bnd (emit ev) f tr = f () (tr @ [ev])"
  by (simp add: bnd_def emit_def)

lemma bnd_ret [simp]: "bnd (ret x) f tr = f x tr"
  by (simp add: bnd_def ret_def)

lemma bnd_throw [simp]: "bnd (throw e) f tr = (Inl e, tr)"
  by (simp add: bnd_def throw_def)

lemma bnd_lift: "bnd (lift r) f tr = (case r of Inl e \<Rightarrow> (Inl e, tr) | Inr x \<Rightarrow> f x tr)"
  by (cases r) simp_all

lemma bnd_if: "bnd (if c then a else b) f = (if c then bnd a f else bnd b f)"
  by simp

lemma bnd_assoc: "bnd (bnd m f) g = bnd m (\<lambda>x. bnd (f x) g)"
  by (auto simp: bnd_def fun_eq_iff split: prod.splits sum.splits)

lemma bnd_result:
  "m tr = (r, tr') \<Longrightarrow> bnd m f tr = (case r of Inl e \<Rightarrow> (Inl e, tr') | Inr x \<Rightarrow> f x tr')"
  by (simp add: bnd_def)

subsection \<open>The attributes of a parsed namespace\<close>

lemma map_fst_setattr:
  "map fst (setattr name v ns) = (if hasattr ns name then map fst ns else map fst ns @ [name])"
proof -
  have "map fst (map (\<lambda>(k, x). if k = name then (k, v) else (k, x)) ns) = map fst ns"
    by (induction ns) auto
  then show ?thesis by (simp add: setattr_def)
qed

lemma hasattr_setattr [simp]: "hasattr (setattr name v ns) k = (hasattr ns k \<or> k = name)"
  by (auto simp: hasattr_def map_fst_setattr)

lemma hasattr_setdefault [simp]: "hasattr (setdefault name v ns) k = (hasattr ns k \<or> k = name)"
  by (auto simp: hasattr_def setdefault_def)

lemma hasattr_store_occurrences:
  "store_occurrences p argv ns = Inr ns' \<Longrightarrow> hasattr ns' k \<Longrightarrow>
     hasattr ns k \<or> k \<in> set (map dest (actions p))"
proof (induction argv arbitrary: ns)
  case Nil
  then show ?case by simp
next
  case (Cons occ rest)
  from Cons.prems(1) obtain a w where
    a: "find (\<lambda>a. option_string a = fst occ) (actions p) = Some a"
    and r: "store_occurrences p rest (setattr (dest a) w ns) = Inr ns'"
    by (auto split: option.splits)
  from a have "a \<in> set (actions p)"
    by (auto simp: find_Some_iff)
  with Cons.IH[OF r Cons.prems(2)] show ?case by auto
qed

lemma hasattr_fold_setdefault:
  "hasattr (fold (\<lambda>a ns. setdefault (f a) (g a) ns) xs ns0) k \<longleftrightarrow> hasattr ns0 k \<or> k \<in> f ` set xs"
  by (induction xs arbitrary: ns0) auto

lemma hasattr_initial_namespace:
  "hasattr (initial_namespace p) k \<longleftrightarrow>
     k \<in> set (map dest (actions p)) \<or> k \<in> set (map fst (defaults p))"
  by (auto simp: initial_namespace_def hasattr_fold_setdefault) (auto simp: hasattr_def)

lemma hasattr_parse_args:
  assumes "parse_args p argv = Inr args" "hasattr args k"
  shows "k \<in> set (map dest (actions p)) \<or> k \<in> set (map fst (defaults p))"
  using hasattr_store_occurrences[OF assms[unfolded parse_args_def]]
  by (auto simp: hasattr_initial_namespace)

lemma getattr_missing: "\<not> hasattr args name \<Longrightarrow> getattr args name = Inl (AttributeError name)"
  by (simp add: getattr_def hasattr_def map_of_eq_None_iff[THEN iffD2])

lemma parse_arguments_entry:
  "parse_arguments True True True False False argv = parse_args entry_parser argv"
  by (simp add: parse_arguments_def behavioural_vae_group_def policy_group_def gibson_group_def
      ArgumentParser_def add_argument_def set_defaults_def option_dest_def entry_parser_def)

lemma initial_namespace_entry:
  "initial_namespace entry_parser =
     [(''vae_name'', StrV ''mse_fc_v1''), (''latent_dim'', IntV 5), (''num_joints'', IntV 7),
      (''num_actions'', IntV 24), (''duration'', FloatV 0.5), (''conv'', BoolV False),
      (''conv_channel'', IntV 2), (''kernel_row'', IntV 4), (''folder_name'', StrV ''example''),
      (''iterations'', IntV 1000), (''batch_size'', IntV 5), (''lr'', FloatV 0.001),
      (''debug'', BoolV False), (''random_goal'', BoolV False), (''train'', BoolV True),
      (''g_name'', StrV ''rgb_test''), (''g_latent'', IntV 10)]"
  by (simp add: initial_namespace_def entry_parser_def setdefault_def hasattr_def)

text \<open>
  The feed-forward group is the one that defines \<open>policy_name\<close> and \<open>model_index\<close>,
  the latter with the default \<open>-1\<close>.
\<close>

lemma feedforward_group_attributes:
  "\<exists>args. parse_arguments True False True False True [] = Inr args \<and>
     getattr args ''policy_name'' = Inr (StrV ''example'') \<and>
     getattr args ''model_index'' = Inr (IntV (- 1))"
  by (simp add: parse_arguments_def behavioural_vae_group_def gibson_group_def
      feedforward_group_def ArgumentParser_def add_argument_def set_defaults_def option_dest_def
      parse_args_def initial_namespace_def setdefault_def hasattr_def getattr_def)

text \<open>With both the policy and the feed-forward group, \<open>--random-goal\<close> is added twice.\<close>

lemma policy_and_feedforward_conflict:
  "parse_arguments False True False False True argv = Inl ArgumentError"
  by (simp add: parse_arguments_def policy_group_def feedforward_group_def ArgumentParser_def
      add_argument_def set_defaults_def option_dest_def)

subsection \<open>The save path and the assertion\<close>

lemma main_without_policy_name:
  "\<not> hasattr args ''policy_name'' \<Longrightarrow>
     main env args tr = (Inl (AttributeError ''policy_name''), tr)"
  by (simp add: main_def check_arguments_def getattr_missing bnd_def lift_def)

lemma check_arguments_cases:
  "check_arguments args tr =
     (case getattr args ''policy_name'' of Inl e \<Rightarrow> (Inl e, tr)
      | Inr policy_name \<Rightarrow>
     (case as_path policy_name of Inl e \<Rightarrow> (Inl e, tr)
      | Inr name \<Rightarrow>
     (case getattr args ''model_index'' of
        Inl e \<Rightarrow> (Inl e, tr @ [SavedArguments (path_join ''../policy_log'' name)])
      | Inr model_index \<Rightarrow>
     (case greater_than_zero model_index of
        Inl e \<Rightarrow> (Inl e, tr @ [SavedArguments (path_join ''../policy_log'' name)])
      | Inr positive \<Rightarrow>
          if positive
          then (Inr (path_join ''../policy_log'' name),
                tr @ [SavedArguments (path_join ''../policy_log'' name)])
          else (Inl AssertionError, tr @ [SavedArguments (path_join ''../policy_log'' name)])))))"
  by (simp add: check_arguments_def ret_def split: sum.splits)

lemma main_aborts_in_check:
  "fst (check_arguments args tr) = Inl e \<Longrightarrow>
     main env args tr = (Inl e, snd (check_arguments args tr))"
  by (cases "check_arguments args tr") (simp add: main_def bnd_def)

lemma entry_point_namespace:
  assumes "parse_arguments True True True False False argv = Inr args"
  shows "\<not> hasattr args ''model_index''" and "\<not> hasattr args ''policy_name''"
proof -
  from assms have args: "parse_args entry_parser argv = Inr args"
    by (simp only: parse_arguments_entry)
  have no: "\<not> hasattr args k"
    if "k \<notin> set (map dest (actions entry_parser))" "k \<notin> set (map fst (defaults entry_parser))"
    for k
    using hasattr_parse_args[OF args] that by blast
  show "\<not> hasattr args ''model_index''" by (rule no) (simp_all add: entry_parser_def)
  show "\<not> hasattr args ''policy_name''" by (rule no) (simp_all add: entry_parser_def)
qed

text \<open>
  C4. Whatever the command line, a namespace returned by
  \<open>parse_arguments(behavioural_vae=True, policy=True, gibson=True)\<close> has neither
  \<open>model_index\<close> nor \<open>policy_name\<close>, and \<open>main\<close> on it raises AttributeError for
  \<open>policy_name\<close> (line 84) with an empty trace: nothing has been saved and the assertion
  on \<open>model_index\<close> (line 89) has not been reached.
\<close>

theorem entry_point_attribute_error:
  assumes "parse_arguments True True True False False argv = Inr args"
  shows "\<not> hasattr args ''model_index'' \<and> \<not> hasattr args ''policy_name'' \<and>
         main env args [] = (Inl (AttributeError ''policy_name''), [])"
  using entry_point_namespace[OF assms] by (simp add: main_without_policy_name)

theorem entry_point_attribute_error_witness:
  "parse_arguments True True True False False [(''--lr'', Some (FloatV 0.01)), (''--debug'', None)] =
     Inr [(''vae_name'', StrV ''mse_fc_v1''), (''latent_dim'', IntV 5), (''num_joints'', IntV 7),
      (''num_actions'', IntV 24), (''duration'', FloatV 0.5), (''conv'', BoolV False),
      (''conv_channel'', IntV 2), (''kernel_row'', IntV 4), (''folder_name'', StrV ''example''),
      (''iterations'', IntV 1000), (''batch_size'', IntV 5), (''lr'', FloatV 0.01),
      (''debug'', BoolV True), (''random_goal'', BoolV False), (''train'', BoolV True),
      (''g_name'', StrV ''rgb_test''), (''g_latent'', IntV 10)] \<and>
   main example_env
     [(''vae_name'', StrV ''mse_fc_v1''), (''latent_dim'', IntV 5), (''num_joints'', IntV 7),
      (''num_actions'', IntV 24), (''duration'', FloatV 0.5), (''conv'', BoolV False),
      (''conv_channel'', IntV 2), (''kernel_row'', IntV 4), (''folder_name'', StrV ''example''),
      (''iterations'', IntV 1000), (''batch_size'', IntV 5), (''lr'', FloatV 0.01),
      (''debug'', BoolV True), (''random_goal'', BoolV False), (''train'', BoolV True),
      (''g_name'', StrV ''rgb_test''), (''g_latent'', IntV 10)] [] =
     (Inl (AttributeError ''policy_name''), [])"
proof -
  have p: "parse_arguments True True True False False
             [(''--lr'', Some (FloatV 0.01)), (''--debug'', None)] =
     Inr [(''vae_name'', StrV ''mse_fc_v1''), (''latent_dim'', IntV 5), (''num_joints'', IntV 7),
      (''num_actions'', IntV 24), (''duration'', FloatV 0.5), (''conv'', BoolV False),
      (''conv_channel'', IntV 2), (''kernel_row'', IntV 4), (''folder_name'', StrV ''example''),
      (''iterations'', IntV 1000), (''batch_size'', IntV 5), (''lr'', FloatV 0.01),
      (''debug'', BoolV True), (''random_goal'', BoolV False), (''train'', BoolV True),
      (''g_name'', StrV ''rgb_test''), (''g_latent'', IntV 10)]"
    unfolding parse_arguments_entry parse_args_def initial_namespace_entry
    by (simp add: entry_parser_def setattr_def hasattr_def)
  from entry_point_attribute_error[OF p, of example_env] p show ?thesis by simp
qed

text \<open>
  C5. Unless \<open>model_index\<close> is there and strictly positive, \<open>main\<close> ends with an
  exception and the only event of the run, if any, is the call of \<open>save_arguments\<close> that
  precedes the assertion: the decoder is not built, the dataset is not read, no optimiser
  step is taken and no checkpoint or figure is written. With a string \<open>policy_name\<close> and
  an integer \<open>model_index\<close> the exception is the AssertionError of line 89.
\<close>

theorem fails_fast_without_positive_model_index:
  assumes "\<not> model_index_positive args"
  shows "(\<exists>e. fst (main env args []) = Inl e) \<and>
         list_all before_assertion (snd (main env args [])) \<and>
         (\<forall>name n. getattr args ''policy_name'' = Inr (StrV name) \<and>
            getattr args ''model_index'' = Inr (IntV n) \<longrightarrow>
            main env args [] =
              (Inl AssertionError, [SavedArguments (path_join ''../policy_log'' name)]))"
proof -
  have "\<exists>e. fst (check_arguments args []) = Inl e \<and>
          list_all before_assertion (snd (check_arguments args []))"
    using assms
    by (auto simp: check_arguments_cases model_index_positive_def split: sum.splits)
  then obtain e where e: "fst (check_arguments args []) = Inl e"
    and l: "list_all before_assertion (snd (check_arguments args []))" by blast
  have "main env args [] = (Inl AssertionError, [SavedArguments (path_join ''../policy_log'' name)])"
    if "getattr args ''policy_name'' = Inr (StrV name)" "getattr args ''model_index'' = Inr (IntV n)"
    for name n
  proof -
    from that assms have "check_arguments args [] =
        (Inl AssertionError, [SavedArguments (path_join ''../policy_log'' name)])"
      by (simp add: check_arguments_cases model_index_positive_def)
    then show ?thesis
      using main_aborts_in_check[of args "[]" AssertionError env] by simp
  qed
  moreover have "fst (main env args []) = Inl e"
    "snd (main env args []) = snd (check_arguments args [])"
    using main_aborts_in_check[OF e, of env] by simp_all
  ultimately show ?thesis using l by simp
qed

theorem fails_fast_without_positive_model_index_witness:
  "\<not> model_index_positive example_args_default_index \<and>
   main example_env example_args_default_index [] =
     (Inl AssertionError, [SavedArguments ''../policy_log/example''])"
proof -
  have g: "getattr example_args_default_index ''policy_name'' = Inr (StrV ''example'')"
    "getattr example_args_default_index ''model_index'' = Inr (IntV (- 1))"
    by (simp_all add: example_args_default_index_def example_args_def setattr_def hasattr_def
        getattr_def)
  have n: "\<not> model_index_positive example_args_default_index"
    by (simp add: model_index_positive_def g)
  from fails_fast_without_positive_model_index[OF n, of example_env] g n show ?thesis
    by (simp add: path_join_def)
qed


section \<open>Properties of the split and of a batch\<close>

subsection \<open>The size of the training partition\<close>

lemma double_0_7_bounds: "double_0_7 + 2 \<le> 2 ^ 53"
  by (simp add: double_0_7_def)

lemma round_53_bits_le:
  assumes "0 < N"
  shows "round_53_bits N * 2 ^ 52 \<le> N * 2 ^ 52 + N"
proof (cases "floorlog 2 N \<le> 53")
  case True
  then show ?thesis by (simp add: round_53_bits_def)
next
  case False
  define s where "s = floorlog 2 N - 53"
  define q where "q = N div 2 ^ s"
  have L: "floorlog 2 N - 1 = s + 52" using False by (simp add: s_def)
  have "(2::nat) ^ (floorlog 2 N - 1) \<le> N"
    using floorlog_bounds[of N 2] assms by simp
  then have low: "(2::nat) ^ s * 2 ^ 52 \<le> N" unfolding L power_add .
  have "round_53_bits N \<le> (q + 1) * 2 ^ s"
    using False by (simp add: round_53_bits_def Let_def s_def q_def)
  also have "\<dots> = q * 2 ^ s + 2 ^ s" by (simp add: algebra_simps)
  also have "\<dots> \<le> N + 2 ^ s" by (simp add: q_def)
  finally have "round_53_bits N \<le> N + 2 ^ s" .
  then have "round_53_bits N * 2 ^ 52 \<le> (N + 2 ^ s) * 2 ^ 52" by (rule mult_le_mono1)
  also have "\<dots> = N * 2 ^ 52 + 2 ^ s * 2 ^ 52" by (simp add: algebra_simps)
  also have "\<dots> \<le> N * 2 ^ 52 + N" using low by simp
  finally show ?thesis .
qed

lemma int_times_0_7_le: "int_times_0_7 n \<le> n"
proof (cases "n = 0")
  case True
  then show ?thesis by (simp add: int_times_0_7_def round_53_bits_def floorlog_def)
next
  case False
  define N where "N = n * double_0_7"
  define K :: nat where "K = 2 ^ 52"
  have K2: "(2::nat) ^ 53 = 2 * K" by (simp add: K_def)
  have M: "double_0_7 + 2 \<le> 2 * K" using double_0_7_bounds unfolding K2 .
  have Npos: "0 < N" using False by (simp add: N_def double_0_7_def)
  have "round_53_bits N * K \<le> N * K + N"
    using round_53_bits_le[OF Npos] by (simp add: K_def)
  also have "\<dots> = n * (double_0_7 * (K + 1))" by (simp add: N_def algebra_simps)
  also have "\<dots> \<le> n * ((2 * K - 2) * (K + 1))"
    using M by (intro mult_le_mono2 mult_le_mono1) simp
  also have "\<dots> \<le> n * (2 * K * K)"
    by (intro mult_le_mono2) (simp add: algebra_simps K_def)
  also have "\<dots> = (n * (2 * K)) * K" by (simp add: algebra_simps)
  finally have "round_53_bits N * K \<le> (n * (2 * K)) * K" .
  then have "round_53_bits N \<le> n * (2 * K)" by (simp add: K_def)
  then have "round_53_bits N div (2 * K) \<le> n"
    by (metis div_le_mono nonzero_mult_div_cancel_right K_def mult_eq_0_iff power_eq_0_iff
        zero_neq_numeral)
  then show ?thesis unfolding int_times_0_7_def N_def K2 .
qed

text \<open>
  Some values. The double product \<open>90 * 0.7\<close> is \<open>62.99999999999999\<close>, so a dataset of 90
  samples gets 62 training samples, not 63.
\<close>

lemma int_times_0_7_examples:
  "int_times_0_7 0 = 0" "int_times_0_7 1 = 0" "int_times_0_7 4 = 2" "int_times_0_7 10 = 7"
  "int_times_0_7 90 = 62" "int_times_0_7 100 = 70"
  by (simp_all add: int_times_0_7_def round_53_bits_def double_0_7_def compute_floorlog Let_def)

lemma split_dataset_eq:
  assumes "length perm = n"
  shows "split_dataset n perm = Inr (take (int_times_0_7 n) perm, drop (int_times_0_7 n) perm)"
  using assms int_times_0_7_le[of n]
  by (simp add: split_dataset_def random_split_def Let_def)

text \<open>
  C7. For a dataset of \<open>n\<close> samples and any permutation of its indices drawn by
  \<open>random_split\<close>, the split succeeds; the training partition has \<open>int(n * 0.7)\<close>
  indices and the validation partition the remaining \<open>n - int(n * 0.7)\<close>; the two are
  disjoint, without repetition, and together they are all the indices.
\<close>

theorem split_is_partition:
  assumes "distinct perm" and "set perm = {0..<n}"
  shows "\<exists>trainset testset.
           split_dataset n perm = Inr (trainset, testset) \<and>
           length trainset = int_times_0_7 n \<and>
           length testset = n - int_times_0_7 n \<and>
           set trainset \<inter> set testset = {} \<and>
           set trainset \<union> set testset = {0..<n} \<and>
           distinct trainset \<and> distinct testset"
proof -
  have len: "length perm = n"
    using assms distinct_card[of perm] by simp
  let ?t = "int_times_0_7 n"
  have "set (take ?t perm) \<inter> set (drop ?t perm) = {}"
    using assms(1) by (rule set_take_disj_set_drop_if_distinct) simp
  moreover have "set (take ?t perm) \<union> set (drop ?t perm) = {0..<n}"
    using assms(2) by (metis append_take_drop_id set_append)
  moreover have "length (take ?t perm) = ?t"
    using len int_times_0_7_le[of n] by simp
  moreover have "length (drop ?t perm) = n - ?t"
    using len by simp
  ultimately show ?thesis
    using split_dataset_eq[OF len] assms(1) by simp
qed

theorem split_is_partition_witness:
  "split_dataset 10 [3, 1, 4, 0, 5, 9, 2, 6, 8, 7] = Inr ([3, 1, 4, 0, 5, 9, 2], [6, 8, 7]) \<and>
   int_times_0_7 10 = 7"
proof -
  have d: "distinct [3, 1, 4, 0, 5, 9, 2, 6, 8, 7::nat]" by simp
  have s: "set [3, 1, 4, 0, 5, 9, 2, 6, 8, 7::nat] = {0..<10}"
    by (auto simp: atLeastLessThan_def)
  have t: "int_times_0_7 10 = 7" by (rule int_times_0_7_examples)
  from split_is_partition[OF d s] obtain trainset testset where
    *: "split_dataset 10 [3, 1, 4, 0, 5, 9, 2, 6, 8, 7] = Inr (trainset, testset)"
      "length trainset = int_times_0_7 10" by blast
  have "split_dataset 10 [3, 1, 4, 0, 5, 9, 2, 6, 8, 7] = Inr ([3, 1, 4, 0, 5, 9, 2], [6, 8, 7])"
    using split_dataset_eq[of "[3, 1, 4, 0, 5, 9, 2, 6, 8, 7]" 10] by (simp add: t)
  with * t show ?thesis by simp
qed

subsection \<open>The pose handed to the kinematics\<close>

text \<open>
  C10. In a training batch and in a validation batch alike, when the decoded trajectories
  have no empty time axis, the end pose is the kinematics function applied to the pose
  made of the last time step of every joint, each angle mapped by
  \<open>(MAX_ANGLE - MIN_ANGLE) * x + MIN_ANGLE\<close> with the angle constants of the
  environment (in the arithmetic of the tensor), and the loss is computed on that end
  pose.
\<close>

theorem kinematics_receives_unnormalized_last_pose:
  assumes "trajectories = to_trajectory env (traj_decoder env (policy env \<theta> latent_1))"
    and "\<not> list_ex (\<lambda>joints. [] \<in> set joints) trajectories"
    and "pose = map (map (\<lambda>timeline. unnormalized (MIN_ANGLE env) (MAX_ANGLE env) (last timeline)))
                 trajectories"
  shows "(\<exists>\<theta>' r. train_batch env \<theta> latent_1 target_pose = Inr (\<theta>', r) \<and>
            end_pose_of r = end_effector_pose env pose \<and>
            loss_of r = mse_loss env (end_effector_pose env pose) target_pose) \<and>
         (\<exists>r. val_batch env \<theta> latent_1 target_pose = Inr r \<and>
            end_pose_of r = end_effector_pose env pose \<and>
            loss_of r = mse_loss env (end_effector_pose env pose) target_pose)"
  using assms
  by (simp add: train_batch_def val_batch_def last_joint_pose_def Let_def unnormalized_def
      scalar_mul_def add_scalar_def comp_def)

theorem kinematics_receives_unnormalized_last_pose_witness:
  "(\<exists>\<theta>' r. train_batch example_env 2 [] [] = Inr (\<theta>', r) \<and> end_pose_of r = [[Fin 3]] \<and>
      loss_of r = Fin 3) \<and>
   (\<exists>r. val_batch example_env 2 [] [] = Inr r \<and> end_pose_of r = [[Fin 3]] \<and> loss_of r = Fin 3)"
proof -
  have e: "policy example_env = (\<lambda>\<theta> latent_1. [[Fin (real \<theta>)]])"
    "traj_decoder example_env = (\<lambda>latent_2. latent_2)"
    "to_trajectory example_env = (\<lambda>z. map (map (\<lambda>v. [Fin 0, v])) z)"
    "end_effector_pose example_env = (\<lambda>pose. pose)"
    "mse_loss example_env = (\<lambda>end_pose target_pose.
         if end_pose = [[Fin 1]] then Fin 5 else if end_pose = [[Fin 3]] then Fin 3
         else if end_pose = [[Fin 5]] then Fin 4 else Fin 2)"
    "MIN_ANGLE example_env = Fin (- 1)" "MAX_ANGLE example_env = Fin 1"
    by (simp_all add: example_env_def example_env_with_def)
  have t: "[[[Fin 0, Fin 2]]] =
           to_trajectory example_env (traj_decoder example_env (policy example_env 2 []))"
    by (simp add: e)
  have n: "\<not> list_ex (\<lambda>joints. [] \<in> set joints) [[[Fin 0, Fin 2]]]" by simp
  have p: "[[Fin 3]] = map (map (\<lambda>timeline.
      unnormalized (MIN_ANGLE example_env) (MAX_ANGLE example_env) (last timeline)))
        [[[Fin 0, Fin 2]]]"
    by (simp add: e unnormalized_def fp_sub_def)
  from kinematics_receives_unnormalized_last_pose[OF t n p, of "[]"] show ?thesis
    by (simp add: e)
qed


section \<open>Properties of the training loop\<close>

subsection \<open>What each part of an epoch adds to the trace\<close>

lemma validation_losses_append [simp]:
  "validation_losses (tr @ evs) = validation_losses tr @ validation_losses evs"
  by (simp add: validation_losses_def)

lemma saved_models_append [simp]:
  "saved_models (tr @ evs) = saved_models tr @ saved_models evs"
  by (simp add: saved_models_def)

lemma views_Cons [simp]:
  "validation_losses (ev # evs) = validated_loss ev @ validation_losses evs"
  "saved_models (ev # evs) = saved_model ev @ saved_models evs"
  "validation_losses [] = []" "saved_models [] = []"
  by (simp_all add: validation_losses_def saved_models_def)

lemma train_pass_view:
  "train_pass S k bs \<theta> acc tr = (r, tr') \<Longrightarrow>
     validation_losses tr' = validation_losses tr \<and> saved_models tr' = saved_models tr"
proof (induction bs arbitrary: \<theta> acc tr)
  case Nil
  then show ?case by (simp add: ret_def)
next
  case (Cons b bs)
  show ?case
  proof (cases "get_batch (dataset_of S) b")
    case (Inl e)
    with Cons.prems show ?thesis by simp
  next
    case gb: (Inr p)
    obtain input target_pose where p: "p = (input, target_pose)" by (cases p)
    show ?thesis
    proof (cases "train_batch (env_of S) \<theta> input target_pose")
      case (Inl e)
      with Cons.prems gb p show ?thesis by simp
    next
      case (Inr q)
      obtain \<theta>' res where q: "q = (\<theta>', res)" by (cases q)
      from Cons.prems have "train_pass S k bs \<theta>' (acc @ [res]) (tr @ [OptimizerStep (k + 1)]) = (r, tr')"
        by (simp add: gb p Inr q)
      from Cons.IH[OF this] show ?thesis by simp
    qed
  qed
qed

lemma val_pass_trace: "snd (val_pass S bs \<theta> acc tr) = tr"
proof (induction bs arbitrary: acc)
  case Nil
  then show ?case by (simp add: ret_def)
next
  case (Cons b bs)
  show ?case
  proof (cases "get_batch (dataset_of S) b")
    case (Inl e)
    then show ?thesis by simp
  next
    case gb: (Inr p)
    obtain latent_1 target_pose where p: "p = (latent_1, target_pose)" by (cases p)
    show ?thesis
      by (cases "val_batch (env_of S) \<theta> latent_1 target_pose") (simp_all add: gb p Cons.IH)
  qed
qed

lemma run_epoch_view:
  assumes "run_epoch S k st tr = (res, tr')"
  shows "(\<exists>e. res = Inl e \<and> validation_losses tr' = validation_losses tr \<and>
            saved_models tr' = saved_models tr) \<or>
         (\<exists>\<theta> l. res = Inr (\<theta>, if fp_less l (snd st) then l else snd st) \<and>
            validation_losses tr' = validation_losses tr @ [l] \<and>
            saved_models tr' = saved_models tr @
              (if fp_less l (snd st)
               then [(path_join (save_dir S) ''model.pth.tar'', Suc k)] else []))"
proof -
  let ?tp = "train_pass S k (batches (loader_batch_size S) (shuffled (env_of S) k (trainset_of S)))
               (fst st) [] tr"
  obtain r1 tr1 where t: "?tp = (r1, tr1)" by (cases ?tp)
  note v1 = train_pass_view[OF t]
  note b1 = bnd_result[where m = "train_pass S k
      (batches (loader_batch_size S) (shuffled (env_of S) k (trainset_of S))) (fst st) []"
      and tr = tr, OF t]
  show ?thesis
  proof (cases r1)
    case (Inl e)
    with assms t v1 show ?thesis by (auto simp: run_epoch_def b1)
  next
    case r1: (Inr p)
    obtain \<theta> trained where p: "p = (\<theta>, trained)" by (cases p)
    show ?thesis
    proof (cases "trained = []")
      case True
      with assms t v1 r1 p show ?thesis by (auto simp: run_epoch_def b1)
    next
      case ne: False
      let ?vp = "val_pass S (batches 10000 (testset_of S)) \<theta> [] tr1"
      obtain r2 where v: "?vp = (r2, tr1)"
        using val_pass_trace[of S "batches 10000 (testset_of S)" \<theta> "[]" tr1] by (cases ?vp) simp
      note b2 = bnd_result[where m = "val_pass S (batches 10000 (testset_of S)) \<theta> []"
          and tr = tr1, OF v]
      show ?thesis
      proof (cases r2)
        case (Inl e)
        with assms t v1 r1 p ne show ?thesis
          by (auto simp: run_epoch_def b1 b2)
      next
        case r2: (Inr validated)
        show ?thesis
        proof (cases "validated = []")
          case True
          with assms t v1 r1 p ne r2 show ?thesis
            by (auto simp: run_epoch_def b1 b2 Let_def)
        next
          case False
          let ?l = "np_mean (env_of S) (map loss_of validated)"
          from False assms t r1 p ne r2 have
            "res = Inr (\<theta>, if fp_less ?l (snd st) then ?l else snd st) \<and>
             validation_losses tr' = validation_losses tr1 @ [?l] \<and>
             saved_models tr' = saved_models tr1 @
               (if fp_less ?l (snd st)
                then [(path_join (save_dir S) ''model.pth.tar'', Suc k)] else [])"
            by (cases "fp_less ?l (snd st)")
               (auto simp: run_epoch_def b1 b2 Let_def ret_def bnd_if bnd_assoc)
          with v1 show ?thesis by auto
        qed
      qed
    qed
  qed
qed

subsection \<open>The loop keeps the best loss so far\<close>

lemma fp_less_trans: "fp_less a b \<Longrightarrow> fp_less b c \<Longrightarrow> fp_less a c"
  by (cases a; cases b; cases c) simp_all

lemma fp_less_not_less:
  "a \<noteq> NaN \<Longrightarrow> b \<noteq> NaN \<Longrightarrow> \<not> fp_less a b \<Longrightarrow> fp_less c b \<Longrightarrow> fp_less c a"
  by (cases a; cases b; cases c) simp_all

lemma fp_less_not_nan: "fp_less a b \<Longrightarrow> a \<noteq> NaN \<and> b \<noteq> NaN"
  by (cases a; cases b) simp_all

lemma best_of_Nil [simp]: "best_of [] = PInf"
  by (simp add: best_of_def)

lemma best_of_snoc:
  "best_of (ls @ [l]) = (if fp_less l (best_of ls) then l else best_of ls)"
  by (simp add: best_of_def)

lemma best_of_not_nan: "best_of ls \<noteq> NaN"
  by (induction ls rule: rev_induct) (auto simp: best_of_snoc dest: fp_less_not_nan)

text \<open>
  A loss is below the best so far exactly when it is below plus infinity and below every
  earlier loss that is a number.
\<close>

lemma fp_less_best_of:
  "fp_less l (best_of ls) \<longleftrightarrow> fp_less l PInf \<and> list_all (\<lambda>x. x = NaN \<or> fp_less l x) ls"
proof (induction ls rule: rev_induct)
  case Nil
  then show ?case by simp
next
  case (snoc x xs)
  show ?case
  proof (cases "fp_less x (best_of xs)")
    case True
    have "fp_less l x \<Longrightarrow> fp_less l (best_of xs)" using True by (rule fp_less_trans[rotated])
    moreover have "x \<noteq> NaN" using True fp_less_not_nan by blast
    ultimately show ?thesis using True snoc.IH by (auto simp: best_of_snoc)
  next
    case False
    have "fp_less l x" if "fp_less l (best_of xs)" "x \<noteq> NaN"
      using fp_less_not_less[OF that(2) best_of_not_nan False that(1)] .
    then show ?thesis using False snoc.IH by (auto simp: best_of_snoc)
  qed
qed

lemma improving_epochs_snoc:
  "improving_epochs (ls @ [l]) =
     improving_epochs ls @
     (if fp_less l PInf \<and> list_all (\<lambda>x. x = NaN \<or> fp_less l x) ls then [Suc (length ls)] else [])"
proof -
  have "[Suc k. k \<leftarrow> [0..<length ls],
           fp_less ((ls @ [l]) ! k) PInf \<and>
           list_all (\<lambda>x. x = NaN \<or> fp_less ((ls @ [l]) ! k) x) (take k (ls @ [l]))] =
        [Suc k. k \<leftarrow> [0..<length ls],
           fp_less (ls ! k) PInf \<and> list_all (\<lambda>x. x = NaN \<or> fp_less (ls ! k) x) (take k ls)]"
    by (rule arg_cong[where f = concat], rule map_cong) (auto simp: nth_append)
  then show ?thesis by (simp add: improving_epochs_def)
qed

text \<open>
  When no loss is \<open>nan\<close> the best loss so far is the minimum, as \<open>np.min\<close> takes it, of
  plus infinity and the earlier losses, and the improving epochs are those whose loss is
  strictly below that minimum.
\<close>

lemma best_of_minimum:
  "NaN \<notin> set ls \<Longrightarrow> best_of ls = fold (\<lambda>l m. fp_minimum m l) ls PInf"
proof (induction ls rule: rev_induct)
  case Nil
  then show ?case by simp
next
  case (snoc x xs)
  then have ih: "best_of xs = fold (\<lambda>l m. fp_minimum m l) xs PInf" and x: "x \<noteq> NaN" by auto
  have "fp_minimum (best_of xs) x = (if fp_less x (best_of xs) then x else best_of xs)"
    using x best_of_not_nan[of xs] by (cases "best_of xs"; cases x) simp_all
  then show ?case by (simp add: best_of_snoc ih[symmetric])
qed

lemma improving_epochs_minimum:
  assumes "NaN \<notin> set losses"
  shows "improving_epochs losses =
     [Suc k. k \<leftarrow> [0..<length losses],
        fp_less (losses ! k) (fold (\<lambda>l m. fp_minimum m l) (take k losses) PInf)]"
proof -
  have "NaN \<notin> set (take k losses)" for k using assms by (auto dest: in_set_takeD)
  then have "fold (\<lambda>l m. fp_minimum m l) (take k losses) PInf = best_of (take k losses)" for k
    by (simp add: best_of_minimum)
  then show ?thesis by (simp add: improving_epochs_def fp_less_best_of)
qed

text \<open>
  The losses of the specification's example, and a sequence with losses that are not
  finite: an epoch whose loss is \<open>nan\<close> or plus infinity writes nothing and leaves the
  best loss as it was.
\<close>

lemma improving_epochs_example:
  "improving_epochs [Fin 5, Fin 3, Fin 4, Fin 2] = [1, 2, 4]"
  "improving_epochs [NaN, PInf, Fin 1, NaN, Fin 0] = [3, 5]"
  by (simp_all add: improving_epochs_def upt_rec[of 0] upt_rec[of 1] upt_rec[of 2] upt_rec[of 3]
      upt_rec[of 4] upt_rec[of 5])

lemma epoch_loop_view:
  assumes "epoch_loop S es st tr = (res, tr')"
    and "es = [length (validation_losses tr)..<N]"
    and "snd st = best_of (validation_losses tr)"
    and "map snd (saved_models tr) = improving_epochs (validation_losses tr)"
    and "list_all (\<lambda>p. p = path_join (save_dir S) ''model.pth.tar'') (map fst (saved_models tr))"
  shows "map snd (saved_models tr') = improving_epochs (validation_losses tr') \<and>
         list_all (\<lambda>p. p = path_join (save_dir S) ''model.pth.tar'') (map fst (saved_models tr'))"
  using assms
proof (induction es arbitrary: st tr)
  case Nil
  then show ?case by (simp add: ret_def)
next
  case (Cons k rest)
  from Cons.prems(2)[symmetric] have k: "k = length (validation_losses tr)"
    and rest: "rest = [Suc k..<N]"
    by (auto simp: upt_eq_Cons_conv)
  obtain r1 tr1 where e: "run_epoch S k st tr = (r1, tr1)" by (cases "run_epoch S k st tr")
  note b = bnd_result[where m = "run_epoch S k st" and tr = tr, OF e]
  have step: "(res, tr') = (case r1 of Inl e \<Rightarrow> (Inl e, tr1) | Inr x \<Rightarrow> epoch_loop S rest x tr1)"
    using Cons.prems(1) by (simp add: b)
  from run_epoch_view[OF e] show ?case
  proof (elim disjE exE conjE)
    fix err
    assume r1: "r1 = Inl err" and v: "validation_losses tr1 = validation_losses tr"
      "saved_models tr1 = saved_models tr"
    from step r1 have "tr' = tr1" by simp
    with v Cons.prems(4,5) show ?thesis by simp
  next
    fix \<theta> l
    assume r1: "r1 = Inr (\<theta>, if fp_less l (snd st) then l else snd st)"
      and vl: "validation_losses tr1 = validation_losses tr @ [l]"
      and sm: "saved_models tr1 = saved_models tr @
              (if fp_less l (snd st)
               then [(path_join (save_dir S) ''model.pth.tar'', Suc k)] else [])"
    let ?st = "(\<theta>, if fp_less l (snd st) then l else snd st)"
    from step r1 have loop: "epoch_loop S rest ?st tr1 = (res, tr')" by simp
    have 1: "rest = [length (validation_losses tr1)..<N]" by (simp add: vl rest k)
    have 2: "snd ?st = best_of (validation_losses tr1)"
      by (simp add: vl Cons.prems(3) best_of_snoc)
    have 3: "map snd (saved_models tr1) = improving_epochs (validation_losses tr1)"
      using Cons.prems(4)
      by (simp add: vl sm improving_epochs_snoc Cons.prems(3) fp_less_best_of[symmetric] k)
    have 4: "list_all (\<lambda>p. p = path_join (save_dir S) ''model.pth.tar'')
               (map fst (saved_models tr1))"
      using Cons.prems(5) by (simp add: sm)
    from Cons.IH[OF loop 1 2 3 4] show ?thesis .
  qed
qed

subsection \<open>The whole run\<close>

lemma prepare_view:
  assumes "prepare env args sp tr = (r, tr')"
  shows "validation_losses tr' = validation_losses tr \<and> saved_models tr' = saved_models tr \<and>
         (\<forall>S \<theta>. r = Inr (S, \<theta>) \<longrightarrow> save_dir S = sp)"
  using assms
  by (auto simp: prepare_def bnd_lift ret_def split: sum.splits prod.splits)

lemma check_arguments_view:
  assumes "check_arguments args tr = (r, tr')"
  shows "validation_losses tr' = validation_losses tr \<and> saved_models tr' = saved_models tr \<and>
         (\<forall>sp. r = Inr sp \<longrightarrow> path_join sp ''model.pth.tar'' = checkpoint_file args)"
  using assms
  by (auto simp: check_arguments_cases checkpoint_file_def split: sum.splits if_splits argval.splits
      elim!: as_path.elims)


text \<open>
  C3. In the trace of any run of \<open>main\<close>, complete or ended by an exception, the epochs
  at which the predictor was saved are exactly the epochs whose mean validation loss is
  strictly less than plus infinity, the initial best, and than the loss of every earlier
  epoch, whatever the losses are: finite, infinite or \<open>nan\<close>. A loss that is \<open>nan\<close> is
  below nothing and never becomes the best, so it neither causes a save nor prevents a
  later one; when no loss is \<open>nan\<close> the condition is that the loss is strictly less
  than the minimum of plus infinity and the earlier losses
  (\<open>improving_epochs_minimum\<close>). Every save goes to the one file
  \<open>model.pth.tar\<close> under the save path; for the losses 5, 3, 4, 2 the saves are at the
  epochs 1, 2 and 4. No event of a run removes a file.
\<close>

theorem checkpoint_on_strict_improvement:
  "map snd (saved_models (snd (main env args []))) =
     improving_epochs (validation_losses (snd (main env args []))) \<and>
   list_all (\<lambda>path. path = checkpoint_file args) (map fst (saved_models (snd (main env args [])))) \<and>
   improving_epochs [Fin 5, Fin 3, Fin 4, Fin 2] = [1, 2, 4]"
proof -
  obtain r1 tr1 where c: "check_arguments args [] = (r1, tr1)" by (cases "check_arguments args []")
  note cv = check_arguments_view[OF c]
  note b1 = bnd_result[where m = "check_arguments args" and tr = "[]", OF c]
  have "map snd (saved_models (snd (main env args []))) =
          improving_epochs (validation_losses (snd (main env args []))) \<and>
        list_all (\<lambda>path. path = checkpoint_file args)
          (map fst (saved_models (snd (main env args []))))"
  proof (cases r1)
    case (Inl e)
    with cv show ?thesis by (simp add: main_def b1 improving_epochs_def)
  next
    case r1: (Inr sp)
    obtain r2 tr2 where p: "prepare env args sp tr1 = (r2, tr2)"
      by (cases "prepare env args sp tr1")
    note pv = prepare_view[OF p]
    note b2 = bnd_result[where m = "prepare env args sp" and tr = tr1, OF p]
    show ?thesis
    proof (cases r2)
      case (Inl e)
      with cv pv r1 show ?thesis by (simp add: main_def b1 b2 improving_epochs_def)
    next
      case r2: (Inr q)
      obtain S \<theta> where q: "q = (S, \<theta>)" by (cases q)
      have sd: "path_join (save_dir S) ''model.pth.tar'' = checkpoint_file args"
        using cv pv r1 r2 q by simp
      have m: "main env args [] =
          bnd (lift (getattr args ''num_epoch'')) (\<lambda>num_epoch.
          bnd (lift (range_of num_epoch)) (\<lambda>epochs. epoch_loop S epochs (\<theta>, PInf))) tr2"
        by (simp add: main_def b1 b2 r1 r2 q)
      have base: "validation_losses tr2 = []" "saved_models tr2 = []"
        using cv pv by simp_all
      show ?thesis
      proof (cases "getattr args ''num_epoch''")
        case (Inl e)
        then show ?thesis by (simp add: m base improving_epochs_def)
      next
        case ne: (Inr num_epoch)
        show ?thesis
        proof (cases "range_of num_epoch")
          case (Inl e)
          then show ?thesis by (simp add: m ne base improving_epochs_def)
        next
          case (Inr epochs)
          then obtain N where N: "epochs = [0..<N]"
            by (cases num_epoch) auto
          obtain r3 tr3 where l: "epoch_loop S epochs (\<theta>, PInf) tr2 = (r3, tr3)"
            by (cases "epoch_loop S epochs (\<theta>, PInf) tr2")
          have "map snd (saved_models tr3) = improving_epochs (validation_losses tr3) \<and>
                list_all (\<lambda>p. p = path_join (save_dir S) ''model.pth.tar'')
                  (map fst (saved_models tr3))"
            by (rule epoch_loop_view[OF l, of N]) (simp_all add: base N improving_epochs_def)
          then show ?thesis by (simp add: m ne Inr l sd)
        qed
      qed
    qed
  qed
  then show ?thesis by (simp add: improving_epochs_example(1))
qed

subsection \<open>A run with the validation losses 5, 3, 4, 2\<close>

lemma example_dataset:
  "load_dataset [episode_a, episode_b] False False [] =
     Inr \<lparr>inputs = [[Fin 10, Fin 11, Fin 0, Fin 0, Fin 1],
                    [Fin 20, Fin 21, Fin (1 / 4), Fin (1 / 4), Fin 0],
                    [Fin 30, Fin 31, Fin (1 / 2), Fin (1 / 2), Fin (1 / 2)],
                    [Fin 40, Fin 41, Fin 1, Fin 1, Fin (1 / 4)]],
          targets = [[Fin 1, Fin 1, Fin 1], [Fin 2, Fin 2, Fin 2], [Fin 3, Fin 3, Fin 3],
                     [Fin 4, Fin 4, Fin 4]]\<rparr>"
  by (simp add: episode_a_def episode_b_def assembler_defs)

lemma example_check: "check_arguments example_args [] = (Inr ''../policy_log/example'', [SavedArguments ''../policy_log/example''])"
  by (simp add: check_arguments_def example_args_def getattr_def path_join_def ret_def)

lemma example_split: "split_dataset 4 [2, 0, 3, 1] = Inr ([2, 0], [3, 1])"
  using split_dataset_eq[of "[2, 0, 3, 1]" 4] by (simp add: int_times_0_7_examples)

lemma example_split':
  "split_dataset (Suc (Suc (Suc (Suc 0)))) [2, 0, 3, Suc 0] = Inr ([2, 0], [3, Suc 0])"
  using example_split by (simp add: eval_nat_numeral)

lemma example_prepare:
  "prepare (example_env_with loss) example_args ''../policy_log/example'' tr =
     (Inr (example_context (example_env_with loss), 0),
      tr @ [BuiltDecoder, ReadDataset])"
proof -
  have e: "listdir (example_env_with loss) = [episode_a, episode_b]"
    "random_integers (example_env_with loss) = []"
    "randperm (example_env_with loss) = [2, 0, 3, 1]"
    "Predictor (example_env_with loss) = (\<lambda>input_dim latent_dim. 0)"
    by (simp_all add: example_env_with_def)
  show ?thesis
    by (simp add: prepare_def example_args_def getattr_def e example_dataset len_def example_split'
        ret_def example_context_def)
qed

lemma batches_single: "xs \<noteq> [] \<Longrightarrow> length xs \<le> b \<Longrightarrow> batches b xs = [xs]"
  by (subst batches.simps, subst batches.simps) (cases xs, auto)

text \<open>
  One epoch in the small environment, from the predictor \<open>\<theta>\<close>: after the optimiser step
  the validation pose is \<open>2 * (\<theta> + 1) - 1\<close> and the mean validation loss is the loss of
  that pose against the targets of the two validation samples.
\<close>

lemma example_epoch:
  assumes "\<theta> < 4"
  shows "run_epoch (example_context (example_env_with loss)) k (\<theta>, best) tr =
   (let l = loss [[Fin (real (2 * \<theta> + 1))]] [[Fin 4, Fin 4, Fin 4], [Fin 2, Fin 2, Fin 2]] in
    (Inr (Suc \<theta>, if fp_less l best then l else best),
     tr @ [OptimizerStep (Suc k), Validated (Suc k) l] @
       (if fp_less l best then [SavedModel ''../policy_log/example/model.pth.tar'' (Suc k)] else []) @
       [Plotted ''../policy_log/example/train_scatter.png'',
        Plotted ''../policy_log/example/val_scatter.png'',
        Plotted ''../policy_log/example/full_scatter.png'',
        Plotted ''../policy_log/example/latents_distribution.png'',
        Plotted ''../policy_log/example/avg_mse.png'',
        Plotted ''../policy_log/example/avg_log_mse.png'']))"
proof -
  have e: "shuffled (example_env_with loss) = (\<lambda>epoch indices. rev indices)"
    "policy (example_env_with loss) = (\<lambda>\<theta> latent_1. [[Fin (real \<theta>)]])"
    "traj_decoder (example_env_with loss) = (\<lambda>latent_2. latent_2)"
    "to_trajectory (example_env_with loss) = (\<lambda>z. map (map (\<lambda>v. [Fin 0, v])) z)"
    "end_effector_pose (example_env_with loss) = (\<lambda>pose. pose)"
    "mse_loss (example_env_with loss) = loss"
    "np_mean (example_env_with loss) = (\<lambda>losses. case losses of [l] \<Rightarrow> l | _ \<Rightarrow> NaN)"
    "optimizer_step (example_env_with loss) = (\<lambda>\<theta> latent_1 target_pose. Suc \<theta>)"
    "MIN_ANGLE (example_env_with loss) = Fin (- 1)" "MAX_ANGLE (example_env_with loss) = Fin 1"
    by (simp_all add: example_env_with_def)
  note defs = run_epoch_def e batches_single get_batch_def take_indices_def train_batch_def
    val_batch_def last_joint_pose_def scalar_mul_def add_scalar_def fp_sub_def path_join_def
    Let_def ret_def bnd_if bnd_assoc example_context_def
  from assms consider "\<theta> = 0" | "\<theta> = 1" | "\<theta> = 2" | "\<theta> = 3" by linarith
  then show ?thesis
  proof cases
    case 1
    then show ?thesis by (simp add: defs)
  next
    case 2
    then show ?thesis by (simp add: defs)
  next
    case 3
    then show ?thesis by (simp add: defs)
  next
    case 4
    then show ?thesis by (simp add: defs)
  qed
qed

lemma example_main:
  "main (example_env_with loss) example_args [] =
     epoch_loop (example_context (example_env_with loss)) [0, 1, 2, 3] (0, PInf)
       [SavedArguments ''../policy_log/example'', BuiltDecoder, ReadDataset]"
proof -
  have r: "range_of (IntV 4) = Inr [0, 1, 2, 3]"
    by (simp add: upt_rec[of 0] upt_rec[of 1] upt_rec[of 2] upt_rec[of 3] upt_rec[of 4] eval_nat_numeral)
  have n: "getattr example_args ''num_epoch'' = Inr (IntV 4)"
    by (simp add: getattr_def example_args_def)
  note b1 = bnd_result[where m = "check_arguments example_args" and tr = "[]", OF example_check]
  note b2 = bnd_result[where m = "prepare (example_env_with loss) example_args ''../policy_log/example''",
      OF example_prepare]
  show ?thesis
    by (simp add: main_def b1 b2 n r del: range_of.simps)
qed

lemma bnd_example_epoch:
  "bnd (run_epoch (example_context env) k st) f tr =
      (case run_epoch (example_context env) k st tr of
         (Inl err, tr') \<Rightarrow> (Inl err, tr') | (Inr x, tr') \<Rightarrow> f x tr')"
  by (simp add: bnd_def)

lemma example_run:
  "main example_env example_args [] =
     (Inr (),
      [SavedArguments ''../policy_log/example'', BuiltDecoder, ReadDataset,
       OptimizerStep 1, Validated 1 (Fin 5), SavedModel ''../policy_log/example/model.pth.tar'' 1,
       Plotted ''../policy_log/example/train_scatter.png'',
       Plotted ''../policy_log/example/val_scatter.png'',
       Plotted ''../policy_log/example/full_scatter.png'',
       Plotted ''../policy_log/example/latents_distribution.png'',
       Plotted ''../policy_log/example/avg_mse.png'',
       Plotted ''../policy_log/example/avg_log_mse.png'',
       OptimizerStep 2, Validated 2 (Fin 3), SavedModel ''../policy_log/example/model.pth.tar'' 2,
       Plotted ''../policy_log/example/train_scatter.png'',
       Plotted ''../policy_log/example/val_scatter.png'',
       Plotted ''../policy_log/example/full_scatter.png'',
       Plotted ''../policy_log/example/latents_distribution.png'',
       Plotted ''../policy_log/example/avg_mse.png'',
       Plotted ''../policy_log/example/avg_log_mse.png'',
       OptimizerStep 3, Validated 3 (Fin 4),
       Plotted ''../policy_log/example/train_scatter.png'',
       Plotted ''../policy_log/example/val_scatter.png'',
       Plotted ''../policy_log/example/full_scatter.png'',
       Plotted ''../policy_log/example/latents_distribution.png'',
       Plotted ''../policy_log/example/avg_mse.png'',
       Plotted ''../policy_log/example/avg_log_mse.png'',
       OptimizerStep 4, Validated 4 (Fin 2), SavedModel ''../policy_log/example/model.pth.tar'' 4,
       Plotted ''../policy_log/example/train_scatter.png'',
       Plotted ''../policy_log/example/val_scatter.png'',
       Plotted ''../policy_log/example/full_scatter.png'',
       Plotted ''../policy_log/example/latents_distribution.png'',
       Plotted ''../policy_log/example/avg_mse.png'',
       Plotted ''../policy_log/example/avg_log_mse.png''])"
  unfolding example_env_def example_main
  by (simp add: bnd_example_epoch example_epoch Let_def ret_def)

text \<open>
  The same run with the losses \<open>nan\<close>, 3, plus infinity, 2: nothing is saved at the first
  epoch, whose loss is not below plus infinity, nor at the third.
\<close>

lemma example_run_nan:
  "main example_env_nan example_args [] =
     (Inr (),
      [SavedArguments ''../policy_log/example'', BuiltDecoder, ReadDataset,
       OptimizerStep 1, Validated 1 NaN,
       Plotted ''../policy_log/example/train_scatter.png'',
       Plotted ''../policy_log/example/val_scatter.png'',
       Plotted ''../policy_log/example/full_scatter.png'',
       Plotted ''../policy_log/example/latents_distribution.png'',
       Plotted ''../policy_log/example/avg_mse.png'',
       Plotted ''../policy_log/example/avg_log_mse.png'',
       OptimizerStep 2, Validated 2 (Fin 3), SavedModel ''../policy_log/example/model.pth.tar'' 2,
       Plotted ''../policy_log/example/train_scatter.png'',
       Plotted ''../policy_log/example/val_scatter.png'',
       Plotted ''../policy_log/example/full_scatter.png'',
       Plotted ''../policy_log/example/latents_distribution.png'',
       Plotted ''../policy_log/example/avg_mse.png'',
       Plotted ''../policy_log/example/avg_log_mse.png'',
       OptimizerStep 3, Validated 3 PInf,
       Plotted ''../policy_log/example/train_scatter.png'',
       Plotted ''../policy_log/example/val_scatter.png'',
       Plotted ''../policy_log/example/full_scatter.png'',
       Plotted ''../policy_log/example/latents_distribution.png'',
       Plotted ''../policy_log/example/avg_mse.png'',
       Plotted ''../policy_log/example/avg_log_mse.png'',
       OptimizerStep 4, Validated 4 (Fin 2), SavedModel ''../policy_log/example/model.pth.tar'' 4,
       Plotted ''../policy_log/example/train_scatter.png'',
       Plotted ''../policy_log/example/val_scatter.png'',
       Plotted ''../policy_log/example/full_scatter.png'',
       Plotted ''../policy_log/example/latents_distribution.png'',
       Plotted ''../policy_log/example/avg_mse.png'',
       Plotted ''../policy_log/example/avg_log_mse.png''])"
  unfolding example_env_nan_def example_main
  by (simp add: bnd_example_epoch example_epoch Let_def ret_def)

theorem checkpoint_on_strict_improvement_witness:
  "validation_losses (snd (main example_env example_args [])) = [Fin 5, Fin 3, Fin 4, Fin 2] \<and>
   map snd (saved_models (snd (main example_env example_args []))) = [1, 2, 4] \<and>
   map fst (saved_models (snd (main example_env example_args []))) =
     [''../policy_log/example/model.pth.tar'', ''../policy_log/example/model.pth.tar'',
      ''../policy_log/example/model.pth.tar''] \<and>
   validation_losses (snd (main example_env_nan example_args [])) = [NaN, Fin 3, PInf, Fin 2] \<and>
   map snd (saved_models (snd (main example_env_nan example_args []))) = [2, 4]"
proof -
  have v: "validation_losses (snd (main example_env example_args [])) = [Fin 5, Fin 3, Fin 4, Fin 2]"
    by (simp add: example_run)
  have p: "map fst (saved_models (snd (main example_env example_args []))) =
     [''../policy_log/example/model.pth.tar'', ''../policy_log/example/model.pth.tar'',
      ''../policy_log/example/model.pth.tar'']"
    by (simp add: example_run)
  note c = checkpoint_on_strict_improvement[of example_env example_args]
  have "map snd (saved_models (snd (main example_env example_args []))) =
        improving_epochs (validation_losses (snd (main example_env example_args [])))"
    by (rule conjunct1[OF c])
  also have "\<dots> = improving_epochs [Fin 5, Fin 3, Fin 4, Fin 2]" by (simp only: v)
  also have "\<dots> = [1, 2, 4]" by (rule conjunct2[OF conjunct2[OF c]])
  finally have s: "map snd (saved_models (snd (main example_env example_args []))) = [1, 2, 4]" .
  have v': "validation_losses (snd (main example_env_nan example_args [])) =
            [NaN, Fin 3, PInf, Fin 2]"
    by (simp add: example_run_nan)
  note c' = checkpoint_on_strict_improvement[of example_env_nan example_args]
  have "map snd (saved_models (snd (main example_env_nan example_args []))) =
        improving_epochs (validation_losses (snd (main example_env_nan example_args [])))"
    by (rule conjunct1[OF c'])
  also have "\<dots> = improving_epochs [NaN, Fin 3, PInf, Fin 2]" by (simp only: v')
  also have "\<dots> = [2, 4]"
    by (simp add: improving_epochs_def upt_rec[of 0] upt_rec[of 1] upt_rec[of 2] upt_rec[of 3]
        upt_rec[of 4])
  finally have s': "map snd (saved_models (snd (main example_env_nan example_args []))) = [2, 4]" .
  from v s p v' s' show ?thesis by (intro conjI)
qed

end
